theory Spec2Isabelle
  imports Complex_Main
begin

section \<open>The Embedx class of core.py\<close>

text \<open>
  The class \<^verbatim>\<open>Embedx\<close> wraps a two-dimensional numpy array of embeddings together with two
  optional parallel arrays (timestamps and labels). Its methods are modelled as functions that
  take the object and return the object after the call together with either the returned value
  or the exception that was raised.

  Floating-point numbers are idealised as real numbers: rounding, overflow, underflow and NaN
  are outside the model.
\<close>

subsection \<open>Exceptions and printed lines\<close>

text \<open>
  \<open>ValueError\<close> carries the message of the \<^verbatim>\<open>raise\<close> statement. \<open>IndexError\<close> is what numpy
  raises for an index out of bounds, for an index array that does not hold integers and for a
  boolean index of the wrong length. No statement
  of core.py raises \<open>ShapeError\<close> or \<open>FormatError\<close>; they are the remaining error kinds of
  the specification.
\<close>

datatype error = ValueError string | IndexError | ShapeError | FormatError

text \<open>One constructor for every \<^verbatim>\<open>print\<close> statement of the modelled methods.\<close>

datatype msg =
    Embedding_shape "nat \<times> nat"
  | Mean_norm real
  | Std_of_norms real
  | Found_near_duplicates nat
  | Removing_near_duplicates nat
  | Found_outliers nat
  | Removing_outliers nat
  | Zero_embeddings_removed
  | Embeddings_removed nat
  | Normalization_applied string

subsection \<open>Arrays\<close>

text \<open>
  A two-dimensional array keeps its column count apart from its rows, so that an array without
  rows still has a shape \<open>(0, D)\<close>.
\<close>

record ndarray =
  ncols :: nat
  rows :: "real list list"

definition shape :: "ndarray \<Rightarrow> nat \<times> nat" where
  "shape a = (length (rows a), ncols a)"

text \<open>
  An entry of an index array on an axis of length \<open>n\<close>: numpy accepts \<open>-n \<le> i < n\<close>, a negative
  entry counting from the end, and raises IndexError otherwise.
\<close>

definition normalize_index :: "nat \<Rightarrow> int \<Rightarrow> error + nat" where
  "normalize_index n i =
     (if i < - int n \<or> int n \<le> i then Inl IndexError
      else Inr (nat (if i < 0 then i + int n else i)))"

text \<open>\<^verbatim>\<open>mask[idxs] = v\<close> on a one-dimensional array, for an index array \<open>idxs\<close>.\<close>

fun index_assign :: "'a list \<Rightarrow> int list \<Rightarrow> 'a \<Rightarrow> error + 'a list" where
  "index_assign msk [] v = Inr msk"
| "index_assign msk (i # idxs) v =
     (case normalize_index (length msk) i of
        Inl e \<Rightarrow> Inl e
      | Inr k \<Rightarrow> index_assign (msk[k := v]) idxs v)"

text \<open>
  An index given as a list of Python integers is first stored as an array of 64-bit integers
  (on a 64-bit platform). When every entry fits a signed 64-bit integer the array holds the
  entries as they are. When the entries are non-negative and below \<open>2^64\<close> and one of them
  does not fit, the array is unsigned, and it is then reinterpreted as signed: an entry from
  \<open>2^63\<close> on becomes \<open>i - 2^64\<close>. Any other list becomes an array of floats or of objects,
  which numpy refuses as an index with IndexError.
\<close>

definition index_array :: "int list \<Rightarrow> error + int list" where
  "index_array idxs =
     (if list_all (\<lambda>i. - (2 ^ 63) \<le> i \<and> i < 2 ^ 63) idxs then Inr idxs
      else if list_all (\<lambda>i. 0 \<le> i \<and> i < 2 ^ 64) idxs
      then Inr (map (\<lambda>i. if 2 ^ 63 \<le> i then i - 2 ^ 64 else i) idxs)
      else Inl IndexError)"

text \<open>
  \<^verbatim>\<open>mask[idxs] = v\<close> for a list \<open>idxs\<close> of Python integers. The lists that pass the conversion
  and the bounds check are those whose entries all lie in \<open>[-n, n)\<close>, read as they are, and
  those whose entries all lie in \<open>[0, n)\<close> or in \<open>[2^64 - n, 2^64)\<close>, where an entry of the
  upper interval is read as \<open>i - 2^64\<close>. Stated by these intervals the definition does not
  mention the width of an index for the entries that are signed indices of the axis; on every
  axis that numpy can hold (\<open>n < 2^63\<close>) it is the conversion \<open>index_array\<close> followed by
  \<open>index_assign\<close>, which is lemma \<open>fancy_assign_index_array\<close> below.
\<close>

definition signed_index :: "nat \<Rightarrow> int \<Rightarrow> bool" where
  "signed_index n i \<longleftrightarrow> - int n \<le> i \<and> i < int n"

definition wrapped_index :: "nat \<Rightarrow> int \<Rightarrow> bool" where
  "wrapped_index n i \<longleftrightarrow> (0 \<le> i \<and> i < int n) \<or> (2 ^ 64 - int n \<le> i \<and> i < 2 ^ 64)"

definition unwrap :: "nat \<Rightarrow> int \<Rightarrow> int" where
  "unwrap n i = (if i < int n then i else i - 2 ^ 64)"

definition fancy_assign :: "'a list \<Rightarrow> int list \<Rightarrow> 'a \<Rightarrow> error + 'a list" where
  "fancy_assign msk idxs v =
     (if list_all (signed_index (length msk)) idxs then index_assign msk idxs v
      else if list_all (wrapped_index (length msk)) idxs
      then index_assign msk (map (unwrap (length msk)) idxs) v
      else Inl IndexError)"

text \<open>
  \<^verbatim>\<open>xs[mask]\<close> with a boolean mask: the entries at the True positions, in order. numpy raises
  IndexError when the mask is not as long as the indexed axis.
\<close>

definition bool_index :: "'a list \<Rightarrow> bool list \<Rightarrow> error + 'a list" where
  "bool_index xs msk =
     (if length msk \<noteq> length xs then Inl IndexError
      else Inr (map fst (filter snd (zip xs msk))))"

definition bool_index_rows :: "ndarray \<Rightarrow> bool list \<Rightarrow> error + ndarray" where
  "bool_index_rows a msk =
     (case bool_index (rows a) msk of
        Inl e \<Rightarrow> Inl e
      | Inr rs \<Rightarrow> Inr (a\<lparr>rows := rs\<rparr>))"

text \<open>The same indexing on an attribute that may be None.\<close>

fun bool_index_opt :: "'a list option \<Rightarrow> bool list \<Rightarrow> error + 'a list option" where
  "bool_index_opt None msk = Inr None"
| "bool_index_opt (Some xs) msk =
     (case bool_index xs msk of Inl e \<Rightarrow> Inl e | Inr ys \<Rightarrow> Inr (Some ys))"

subsection \<open>Norms and statistics\<close>

definition l2_norm :: "real list \<Rightarrow> real" where
  "l2_norm r = sqrt (sum_list (map (\<lambda>x. x * x) r))"

definition l1_norm :: "real list \<Rightarrow> real" where
  "l1_norm r = sum_list (map abs r)"

definition mean :: "real list \<Rightarrow> real" where
  "mean xs = sum_list xs / real (length xs)"

definition std :: "real list \<Rightarrow> real" where
  "std xs = sqrt (mean (map (\<lambda>x. (x - mean xs) * (x - mean xs)) xs))"

record stats =
  stats_shape :: "nat \<times> nat"
  mean_norm :: real
  std_norm :: real

subsection \<open>The object\<close>

text \<open>
  The fields of \<^verbatim>\<open>self\<close>, followed by the two pieces of interpreter state the methods act on:
  the heap of numpy matrices (\<open>embeddings\<close> is a reference into it, since numpy arrays are
  shared and some library calls write to their argument in place) and the lines printed so far.
  The parallel arrays are only ever rebound, never written in place, and are kept by value.
\<close>

record ('t, 'l) embedx =
  embeddings :: nat
  n_samples :: nat
  n_dim :: nat
  verbose :: bool
  timestamps :: "'t list option"
  labels :: "'l list option"
  heap :: "ndarray list"
  stdout :: "msg list"

definition matrix :: "('t, 'l) embedx \<Rightarrow> ndarray" where
  "matrix self = heap self ! embeddings self"

definition print :: "msg \<Rightarrow> ('t, 'l) embedx \<Rightarrow> ('t, 'l) embedx" where
  "print m self = self\<lparr>stdout := stdout self @ [m]\<rparr>"

text \<open>A new array object: it gets the next free address.\<close>

definition alloc :: "ndarray \<Rightarrow> ('t, 'l) embedx \<Rightarrow> nat \<times> ('t, 'l) embedx" where
  "alloc a self = (length (heap self), self\<lparr>heap := heap self @ [a]\<rparr>)"

text \<open>
  \<^verbatim>\<open>__init__\<close>: the array at address \<open>e\<close> is stored by reference; no length of a parallel
  array is looked at.
\<close>

definition init ::
  "ndarray list \<Rightarrow> msg list \<Rightarrow> nat \<Rightarrow> bool \<Rightarrow> 't list option \<Rightarrow> 'l list option
     \<Rightarrow> error + ('t, 'l) embedx" where
  "init h out e vb ts ls =
     Inr \<lparr>embeddings = e, n_samples = fst (shape (h ! e)), n_dim = snd (shape (h ! e)),
          verbose = vb, timestamps = ts, labels = ls, heap = h, stdout = out\<rparr>"

definition set_labels ::
  "('t, 'l) embedx \<Rightarrow> 'l list option \<Rightarrow> (error + unit) \<times> ('t, 'l) embedx" where
  "set_labels self ls = (Inr (), self\<lparr>labels := ls\<rparr>)"

definition set_timestamps ::
  "('t, 'l) embedx \<Rightarrow> 't list option \<Rightarrow> (error + unit) \<times> ('t, 'l) embedx" where
  "set_timestamps self ts = (Inr (), self\<lparr>timestamps := ts\<rparr>)"

definition get_dims :: "('t, 'l) embedx \<Rightarrow> (nat \<times> nat) \<times> ('t, 'l) embedx" where
  "get_dims self =
     (let self1 = self\<lparr>n_samples := fst (shape (matrix self)),
                       n_dim := snd (shape (matrix self))\<rparr>
      in ((n_samples self1, n_dim self1), self1))"

definition basic_stats :: "('t, 'l) embedx \<Rightarrow> stats \<times> ('t, 'l) embedx" where
  "basic_stats self =
     (let norms = map l2_norm (rows (matrix self));
          self1 = (if verbose self
                   then print (Std_of_norms (std norms))
                          (print (Mean_norm (mean norms))
                             (print (Embedding_shape (shape (matrix self))) self))
                   else self)
      in (\<lparr>stats_shape = shape (matrix self), mean_norm = mean norms, std_norm = std norms\<rparr>,
          self1))"

subsection \<open>Row removal\<close>

text \<open>
  \<^verbatim>\<open>_remove_indices\<close>. The early exit on an empty collection is a bare \<^verbatim>\<open>return\<close>, whose
  value is None; the other exit returns the statistics. Every assignment to an attribute of
  \<^verbatim>\<open>self\<close> is a step of its own, so an exception leaves behind the assignments made before it.
\<close>

definition remove_indices ::
  "('t, 'l) embedx \<Rightarrow> int list \<Rightarrow> (error + stats option) \<times> ('t, 'l) embedx" where
  "remove_indices self removing =
     (if length removing = 0 then
        (Inr None, if verbose self then print Zero_embeddings_removed self else self)
      else
        case fancy_assign (replicate (n_samples self) True) removing False of
          Inl e \<Rightarrow> (Inl e, self)
        | Inr msk \<Rightarrow>
           (case bool_index_rows (matrix self) msk of
              Inl e \<Rightarrow> (Inl e, self)
            | Inr emb \<Rightarrow>
               (let (a, self0) = alloc emb self;
                    self1 = self0\<lparr>embeddings := a\<rparr>
                in case bool_index_opt (timestamps self1) msk of
                     Inl e \<Rightarrow> (Inl e, self1)
                   | Inr ts \<Rightarrow>
                      (let self2 = self1\<lparr>timestamps := ts\<rparr>
                       in case bool_index_opt (labels self2) msk of
                            Inl e \<Rightarrow> (Inl e, self2)
                          | Inr ls \<Rightarrow>
                             (let self3 = self2\<lparr>labels := ls\<rparr>;
                                  self4 = self3\<lparr>n_dim := snd (shape (matrix self3))\<rparr>;
                                  self5 = self4\<lparr>n_samples := fst (shape (matrix self4))\<rparr>;
                                  self6 = (if verbose self5
                                           then print (Embeddings_removed (length removing)) self5
                                           else self5);
                                  (st, self7) = basic_stats self6
                              in (Inr (Some st), self7))))))"

subsection \<open>Libraries\<close>

text \<open>
  The nearest-neighbour search, the isolation forest and the array readers are library code.
  They are parameters of the model, as functions of the values they are given:
  \<^item> \<open>faiss_search d emb k\<close> stands for
    \<^verbatim>\<open>index = faiss.IndexFlatIP(d); index.add(emb); index.search(emb, k)\<close>,
  \<^item> \<open>kneighbors k X\<close> for
    \<^verbatim>\<open>nn = NearestNeighbors(n_neighbors=k, metric="cosine"); nn.fit(X); nn.kneighbors(X)\<close>,
  \<^item> \<open>fit_predict c X\<close> for
    \<^verbatim>\<open>IsolationForest(contamination=c, random_state=42).fit_predict(X)\<close>,
  \<^item> \<open>np_load\<close> and \<open>np_loadtxt\<close> for the two readers of numpy.
  Being functions of the array's value, they do not write to the array they are given.
  \<open>FAISS_AVAILABLE\<close> is the module-level flag set by the import at the top of core.py.
\<close>

record libs =
  FAISS_AVAILABLE :: bool
  faiss_search :: "nat \<Rightarrow> ndarray \<Rightarrow> int \<Rightarrow> error + real list list \<times> int list list"
  kneighbors :: "int \<Rightarrow> ndarray \<Rightarrow> error + real list list \<times> int list list"
  fit_predict :: "real \<Rightarrow> ndarray \<Rightarrow> error + int list"
  np_load :: "string \<Rightarrow> error + ndarray"
  np_loadtxt :: "string \<Rightarrow> error + ndarray"

subsection \<open>Loading\<close>

definition endswith :: "string \<Rightarrow> string \<Rightarrow> bool" where
  "endswith s suf = (length suf \<le> length s \<and> drop (length s - length suf) s = suf)"

definition load_embeddings :: "libs \<Rightarrow> string \<Rightarrow> error + ndarray" where
  "load_embeddings lib path =
     (if endswith path ''.npy'' then np_load lib path
      else if endswith path ''.csv'' then np_loadtxt lib path
      else Inl (ValueError ''Unknown file format: must be .npy or .csv''))"

subsection \<open>Near-duplicates\<close>

text \<open>
  \<^verbatim>\<open>faiss.normalize_L2\<close> rescales every row of its argument in place; a row of norm zero is
  left as it is.
\<close>

definition renorm_L2 :: "real list \<Rightarrow> real list" where
  "renorm_L2 r = (if l2_norm r = 0 then r else map (\<lambda>x. x / l2_norm r) r)"

definition normalized_L2 :: "ndarray \<Rightarrow> ndarray" where
  "normalized_L2 a = a\<lparr>rows := map renorm_L2 (rows a)\<rparr>"

definition faiss_normalize_L2 :: "nat \<Rightarrow> ('t, 'l) embedx \<Rightarrow> ('t, 'l) embedx" where
  "faiss_normalize_L2 a self = self\<lparr>heap := (heap self)[a := normalized_L2 (heap self ! a)]\<rparr>"

text \<open>
  In the faiss branch \<^verbatim>\<open>astype(np.float32)\<close> makes a new array (the cast itself is the identity
  on real numbers) and \<^verbatim>\<open>copy()\<close> a second one, which is then normalized in place.

  The two nested loops over the search result are the same in both branches but for the
  similarity \<open>sim dist\<close> read off a distance: \<open>dist\<close> itself with faiss, \<open>1 - dist\<close> with
  scikit-learn. \<^verbatim>\<open>dist_row[1:]\<close> is the tail, empty for an empty row.
\<close>

definition row_duplicates ::
  "(real \<Rightarrow> real) \<Rightarrow> real \<Rightarrow> nat \<Rightarrow> real list \<Rightarrow> int list \<Rightarrow> (nat \<times> int \<times> real) list" where
  "row_duplicates sim threshold i dist_row index_row =
     map (\<lambda>(dist, index). (i, index, sim dist))
       (filter (\<lambda>(dist, index). sim dist \<ge> threshold \<and> int i < index)
          (zip (tl dist_row) (tl index_row)))"

definition collect_duplicates ::
  "(real \<Rightarrow> real) \<Rightarrow> real \<Rightarrow> real list list \<Rightarrow> int list list \<Rightarrow> (nat \<times> int \<times> real) list" where
  "collect_duplicates sim threshold distances indices =
     concat (map (\<lambda>(i, (dist_row, index_row)). row_duplicates sim threshold i dist_row index_row)
               (enumerate 0 (zip distances indices)))"

definition find_duplicates ::
  "libs \<Rightarrow> ('t, 'l) embedx \<Rightarrow> real \<Rightarrow> int
     \<Rightarrow> (error + (nat \<times> int \<times> real) list) \<times> ('t, 'l) embedx" where
  "find_duplicates lib self threshold neighbors =
     (if FAISS_AVAILABLE lib then
        (let (a, self1) = alloc (matrix self) self;
             (emb, self2) = alloc (heap self1 ! a) self1;
             self3 = faiss_normalize_L2 emb self2
         in case faiss_search lib (n_dim self3) (heap self3 ! emb) (neighbors + 1) of
              Inl e \<Rightarrow> (Inl e, self3)
            | Inr (distances, indices) \<Rightarrow>
               (let duplicates = collect_duplicates (\<lambda>dist. dist) threshold distances indices
                in (Inr duplicates,
                    if verbose self3
                    then print (Found_near_duplicates (length duplicates)) self3
                    else self3)))
      else
        (case kneighbors lib neighbors (matrix self) of
           Inl e \<Rightarrow> (Inl e, self)
         | Inr (distances, indices) \<Rightarrow>
            (let duplicates = collect_duplicates (\<lambda>dist. 1 - dist) threshold distances indices
             in (Inr duplicates,
                 if verbose self
                 then print (Found_near_duplicates (length duplicates)) self
                 else self))))"

text \<open>
  \<^verbatim>\<open>remove_duplicates\<close> builds a Python set of the second components. The set is modelled by
  the list of its distinct elements; \<^verbatim>\<open>len\<close> counts them. The method has no return
  statement.
\<close>

definition remove_duplicates ::
  "libs \<Rightarrow> ('t, 'l) embedx \<Rightarrow> real \<Rightarrow> int \<Rightarrow> (error + unit) \<times> ('t, 'l) embedx" where
  "remove_duplicates lib self threshold neighbors =
     (case find_duplicates lib self threshold neighbors of
        (Inl e, self1) \<Rightarrow> (Inl e, self1)
      | (Inr duplicates, self1) \<Rightarrow>
         (let removing = remdups (map (\<lambda>(_, index, _). index) duplicates);
              self2 = (if verbose self1
                       then print (Removing_near_duplicates (length removing)) self1
                       else self1)
          in case remove_indices self2 removing of
               (Inl e, self3) \<Rightarrow> (Inl e, self3)
             | (Inr _, self3) \<Rightarrow> (Inr (), self3)))"

subsection \<open>Outliers\<close>

text \<open>\<^verbatim>\<open>np.where(preds == -1)[0]\<close>: the positions of the value -1, ascending.\<close>

definition find_outliers ::
  "libs \<Rightarrow> ('t, 'l) embedx \<Rightarrow> real \<Rightarrow> (error + nat list) \<times> ('t, 'l) embedx" where
  "find_outliers lib self contamination =
     (case fit_predict lib contamination (matrix self) of
        Inl e \<Rightarrow> (Inl e, self)
      | Inr preds \<Rightarrow>
         (let outliers = filter (\<lambda>i. preds ! i = - 1) [0..<length preds]
          in (Inr outliers,
              if verbose self then print (Found_outliers (length outliers)) self else self)))"

definition remove_outliers ::
  "libs \<Rightarrow> ('t, 'l) embedx \<Rightarrow> real \<Rightarrow> (error + unit) \<times> ('t, 'l) embedx" where
  "remove_outliers lib self contamination =
     (case find_outliers lib self contamination of
        (Inl e, self1) \<Rightarrow> (Inl e, self1)
      | (Inr outliers, self1) \<Rightarrow>
         (let self2 = (if verbose self1
                       then print (Removing_outliers (length outliers)) self1
                       else self1)
          in case remove_indices self2 (map int outliers) of
               (Inl e, self3) \<Rightarrow> (Inl e, self3)
             | (Inr _, self3) \<Rightarrow> (Inr (), self3)))"

subsection \<open>Normalization\<close>

text \<open>
  \<^verbatim>\<open>normalize\<close>: the norms are a column of one entry per row; zero entries are set to 1; the
  quotient is a new array, to which \<^verbatim>\<open>self.embeddings\<close> is rebound.
\<close>

definition normalize ::
  "('t, 'l) embedx \<Rightarrow> string \<Rightarrow> (error + unit) \<times> ('t, 'l) embedx" where
  "normalize self method =
     (case (if method = ''l2'' then Inr (map l2_norm (rows (matrix self)))
            else if method = ''l1'' then Inr (map l1_norm (rows (matrix self)))
            else Inl (ValueError (''Cannot normalize with unknown method: '' @ method))) of
        Inl e \<Rightarrow> (Inl e, self)
      | Inr norms \<Rightarrow>
         (let norms1 = map (\<lambda>n. if n = 0 then 1 else n) norms;
              (a, self0) = alloc ((matrix self)\<lparr>rows :=
                   map (\<lambda>(r, n). map (\<lambda>x. x / n) r) (zip (rows (matrix self)) norms1)\<rparr>) self;
              self1 = self0\<lparr>embeddings := a\<rparr>
          in (Inr (),
              if verbose self1 then print (Normalization_applied method) self1 else self1)))"

section \<open>Notions used in the properties\<close>

subsection \<open>Alignment of the parallel arrays\<close>

text \<open>
  An object is aligned when its matrix reference points into the heap, \<open>n_samples\<close> is the
  number of rows of the matrix, and each parallel array that is present has one entry per row.
\<close>

definition aligned :: "('t, 'l) embedx \<Rightarrow> bool" where
  "aligned self \<longleftrightarrow>
     embeddings self < length (heap self) \<and>
     n_samples self = length (rows (matrix self)) \<and>
     (case timestamps self of None \<Rightarrow> True | Some ts \<Rightarrow> length ts = length (rows (matrix self))) \<and>
     (case labels self of None \<Rightarrow> True | Some ls \<Rightarrow> length ls = length (rows (matrix self)))"

text \<open>
  The rows of \<open>n\<close> that a keep-mask built from \<open>removing\<close> lets through: row \<open>k\<close> is dropped
  when \<open>removing\<close> holds \<open>k\<close> itself or its negative alias \<open>k - n\<close>.
\<close>

definition survivors :: "nat \<Rightarrow> int list \<Rightarrow> nat list" where
  "survivors n removing =
     filter (\<lambda>k. int k \<notin> set removing \<and> int k - int n \<notin> set removing) [0..<n]"

text \<open>
  \<open>selects self self' kept\<close>: the matrix and the parallel arrays of \<open>self'\<close> all consist of the
  entries that \<open>self\<close> has at the source rows \<open>kept\<close>, in that order. Row \<open>r\<close> of the matrix of
  \<open>self'\<close> and entry \<open>r\<close> of its timestamps and labels then come from the same source row
  \<open>kept ! r\<close>.
\<close>

definition selects ::
  "('t, 'l) embedx \<Rightarrow> ('t, 'l) embedx \<Rightarrow> nat list \<Rightarrow> bool" where
  "selects self self' kept \<longleftrightarrow>
     rows (matrix self') = map ((!) (rows (matrix self))) kept \<and>
     timestamps self' = map_option (\<lambda>ts. map ((!) ts) kept) (timestamps self) \<and>
     labels self' = map_option (\<lambda>ls. map ((!) ls) kept) (labels self)"

subsection \<open>Cosine similarity and what the search libraries return\<close>

definition dot :: "real list \<Rightarrow> real list \<Rightarrow> real" where
  "dot a b = sum_list (map (\<lambda>(x, y). x * y) (zip a b))"

definition cosine_similarity :: "real list \<Rightarrow> real list \<Rightarrow> real" where
  "cosine_similarity a b = dot a b / (l2_norm a * l2_norm b)"

text \<open>
  A search result over the rows \<open>X\<close> is faithful to the measure \<open>d\<close> when it has one row of
  distances and one row of indices per row of \<open>X\<close>, and every index is either the padding
  value -1 or a row number whose distance entry is \<open>d\<close> of the two rows.
\<close>

definition neighbours_ok ::
  "(real list \<Rightarrow> real list \<Rightarrow> real) \<Rightarrow> real list list \<Rightarrow> real list list \<Rightarrow> int list list
     \<Rightarrow> bool" where
  "neighbours_ok d X distances indices \<longleftrightarrow>
     length distances = length X \<and> length indices = length X \<and>
     list_all (\<lambda>(x, dist_row, index_row).
        list_all (\<lambda>(dist, j). j = - 1 \<or> (0 \<le> j \<and> j < int (length X) \<and> dist = d x (X ! nat j)))
          (zip dist_row index_row))
       (zip X (zip distances indices))"

text \<open>
  The library call that \<^verbatim>\<open>find_duplicates\<close> makes returns what the library documents: inner
  products of the rows of the normalized copy for \<^verbatim>\<open>IndexFlatIP\<close>, cosine distances of the
  rows of the matrix for \<^verbatim>\<open>NearestNeighbors(metric="cosine")\<close>. A call that raises promises
  nothing.
\<close>

definition search_contract :: "libs \<Rightarrow> ('t, 'l) embedx \<Rightarrow> int \<Rightarrow> bool" where
  "search_contract lib self neighbors =
     (if FAISS_AVAILABLE lib then
        (case faiss_search lib (n_dim self) (normalized_L2 (matrix self)) (neighbors + 1) of
           Inl e \<Rightarrow> True
         | Inr (distances, indices) \<Rightarrow>
             neighbours_ok dot (rows (normalized_L2 (matrix self))) distances indices)
      else
        (case kneighbors lib neighbors (matrix self) of
           Inl e \<Rightarrow> True
         | Inr (distances, indices) \<Rightarrow>
             neighbours_ok (\<lambda>a b. 1 - cosine_similarity a b) (rows (matrix self))
               distances indices))"

text \<open>
  Two rows are in the same duplicate cluster when a chain of reported pairs, read in either
  direction, leads from one to the other.
\<close>

definition dup_pairs :: "(nat \<times> int \<times> real) list \<Rightarrow> (nat \<times> nat) set" where
  "dup_pairs duplicates = (\<lambda>(i, j, s). (i, nat j)) ` set duplicates"

definition same_cluster :: "(nat \<times> int \<times> real) list \<Rightarrow> nat \<Rightarrow> nat \<Rightarrow> bool" where
  "same_cluster duplicates a b \<longleftrightarrow> (a, b) \<in> (dup_pairs duplicates \<union> (dup_pairs duplicates)\<inverse>)\<^sup>*"

text \<open>The second components of the reported triples: the rows that are duplicates of an earlier row.\<close>

definition second_elements :: "(nat \<times> int \<times> real) list \<Rightarrow> int set" where
  "second_elements duplicates = (\<lambda>(i, j, s). j) ` set duplicates"

subsection \<open>Objects that differ in the flag and the printed lines only\<close>

definition same_data :: "('t, 'l) embedx \<Rightarrow> ('t, 'l) embedx \<Rightarrow> bool" where
  "same_data s s' \<longleftrightarrow>
     embeddings s = embeddings s' \<and> n_samples s = n_samples s' \<and> n_dim s = n_dim s' \<and>
     timestamps s = timestamps s' \<and> labels s = labels s' \<and> heap s = heap s'"

subsection \<open>A small data set\<close>

text \<open>
  Four embeddings of dimension two: rows 0 and 1 are equal, row 2 is the zero vector. The
  library results are those of an exact search for three neighbours and of a forest that flags
  row 2.
\<close>

definition demo_matrix :: ndarray where
  "demo_matrix = \<lparr>ncols = 2, rows = [[3, 4], [3, 4], [0, 0], [0, 5]]\<rparr>"

definition demo :: "(nat, string) embedx" where
  "demo = \<lparr>embeddings = 0, n_samples = 4, n_dim = 2, verbose = True,
           timestamps = Some [10, 20, 30, 40], labels = Some [''a'', ''b'', ''c'', ''d''],
           heap = [demo_matrix], stdout = []\<rparr>"

definition demo_indices :: "int list list" where
  "demo_indices = [[0, 1, 3], [1, 0, 3], [2, 0, 1], [3, 0, 1]]"

definition demo_libs :: libs where
  "demo_libs = \<lparr>FAISS_AVAILABLE = True,
     faiss_search = (\<lambda>d emb k.
        Inr ([[1, 1, 4 / 5], [1, 1, 4 / 5], [0, 0, 0], [1, 4 / 5, 4 / 5]], demo_indices)),
     kneighbors = (\<lambda>k X.
        Inr ([[0, 0, 1 / 5], [0, 0, 1 / 5], [1, 1, 1], [0, 1 / 5, 1 / 5]], demo_indices)),
     fit_predict = (\<lambda>c X. Inr [1, 1, - 1, 1]),
     np_load = (\<lambda>path. Inr demo_matrix),
     np_loadtxt = (\<lambda>path. Inr demo_matrix)\<rparr>"

section \<open>Properties\<close>

subsection \<open>Masks and boolean indexing\<close>

lemma index_assign_length:
  "index_assign msk idxs v = Inr m \<Longrightarrow> length m = length msk"
  by (induction idxs arbitrary: msk) (auto split: sum.splits)

lemma index_assign_out_of_range:
  "i \<in> set idxs \<Longrightarrow> i < - int (length msk) \<or> int (length msk) \<le> i
     \<Longrightarrow> index_assign msk idxs v = Inl IndexError"
proof (induction idxs arbitrary: msk)
  case Nil
  then show ?case by simp
next
  case (Cons j idxs)
  show ?case
  proof (cases "normalize_index (length msk) j")
    case (Inl e)
    then show ?thesis by (auto simp: normalize_index_def split: if_splits)
  next
    case (Inr k)
    with Cons.prems have "i \<in> set idxs"
      by (auto simp: normalize_index_def split: if_splits)
    with Cons.IH [of "msk[k := v]"] Cons.prems(2) Inr show ?thesis by simp
  qed
qed

lemma index_assign_nth:
  "index_assign msk idxs v = Inr m \<Longrightarrow> k < length msk \<Longrightarrow>
     m ! k = (if int k \<in> set idxs \<or> int k - int (length msk) \<in> set idxs then v else msk ! k)"
proof (induction idxs arbitrary: msk)
  case Nil
  then show ?case by simp
next
  case (Cons j idxs)
  from Cons.prems(1) obtain p where p: "normalize_index (length msk) j = Inr p"
    and rest: "index_assign (msk[p := v]) idxs v = Inr m"
    by (auto split: sum.splits)
  from p have range: "- int (length msk) \<le> j" "j < int (length msk)"
    and pdef: "p = nat (if j < 0 then j + int (length msk) else j)"
    by (auto simp: normalize_index_def split: if_splits)
  have hit: "k = p \<longleftrightarrow> int k = j \<or> int k - int (length msk) = j"
    using range pdef Cons.prems(2) by auto
  from Cons.IH [OF rest] Cons.prems(2)
  have "m ! k = (if int k \<in> set idxs \<or> int k - int (length msk) \<in> set idxs then v
                 else (msk[p := v]) ! k)"
    by simp
  also have "(msk[p := v]) ! k = (if k = p then v else msk ! k)"
    using Cons.prems(2) by (simp add: nth_list_update)
  finally show ?case using hit by auto
qed

lemma index_assign_in_range:
  "\<forall>i\<in>set idxs. - int (length msk) \<le> i \<and> i < int (length msk)
     \<Longrightarrow> \<exists>m. index_assign msk idxs v = Inr m"
proof (induction idxs arbitrary: msk)
  case Nil
  then show ?case by simp
next
  case (Cons j idxs)
  then have "normalize_index (length msk) j
               = Inr (nat (if j < 0 then j + int (length msk) else j))"
    by (simp add: normalize_index_def)
  moreover from Cons.prems
  have "\<exists>m. index_assign (msk[nat (if j < 0 then j + int (length msk) else j) := v]) idxs v = Inr m"
    by (intro Cons.IH) simp
  ultimately show ?case by simp
qed

lemma fancy_assign_signed:
  assumes "\<forall>i\<in>set idxs. - int (length msk) \<le> i \<and> i < int (length msk)"
  shows "fancy_assign msk idxs v = index_assign msk idxs v"
  using assms by (simp add: fancy_assign_def list_all_iff signed_index_def)

lemma fancy_assign_wrapped:
  assumes "\<not> list_all (signed_index (length msk)) idxs"
    and "list_all (wrapped_index (length msk)) idxs"
  shows "fancy_assign msk idxs v = index_assign msk (map (unwrap (length msk)) idxs) v"
  using assms by (simp add: fancy_assign_def)

lemma fancy_assign_refused:
  assumes "\<not> list_all (signed_index (length msk)) idxs"
    and "\<not> list_all (wrapped_index (length msk)) idxs"
  shows "fancy_assign msk idxs v = Inl IndexError"
  using assms by (simp add: fancy_assign_def)

lemma unwrap_signed:
  "wrapped_index n i \<Longrightarrow> - int n \<le> unwrap n i \<and> unwrap n i < int n"
  by (auto simp: wrapped_index_def unwrap_def)

lemma fancy_assign_Inr:
  assumes "fancy_assign msk idxs v = Inr m"
  obtains ks where "index_assign msk ks v = Inr m"
    and "(\<forall>i\<in>set idxs. - int (length msk) \<le> i \<and> i < int (length msk)) \<longrightarrow> ks = idxs"
proof (cases "list_all (signed_index (length msk)) idxs")
  case True
  with assms have "index_assign msk idxs v = Inr m" by (simp add: fancy_assign_def)
  with that show ?thesis by blast
next
  case False
  with assms have "index_assign msk (map (unwrap (length msk)) idxs) v = Inr m"
    by (simp add: fancy_assign_def split: if_splits)
  moreover from False
  have "\<not> (\<forall>i\<in>set idxs. - int (length msk) \<le> i \<and> i < int (length msk))"
    by (simp add: list_all_iff signed_index_def)
  ultimately show ?thesis using that by blast
qed

lemma fancy_assign_Inl:
  assumes "fancy_assign msk idxs v = Inl e"
  shows "e = IndexError"
    and "\<not> (\<forall>i\<in>set idxs. - int (length msk) \<le> i \<and> i < int (length msk))"
proof -
  show no: "\<not> (\<forall>i\<in>set idxs. - int (length msk) \<le> i \<and> i < int (length msk))"
  proof
    assume all: "\<forall>i\<in>set idxs. - int (length msk) \<le> i \<and> i < int (length msk)"
    from index_assign_in_range [OF all, of v] assms show False
      by (auto simp: fancy_assign_signed [OF all])
  qed
  then have unsigned: "\<not> list_all (signed_index (length msk)) idxs"
    by (simp add: list_all_iff signed_index_def)
  show "e = IndexError"
  proof (cases "list_all (wrapped_index (length msk)) idxs")
    case True
    then have "\<forall>i\<in>set (map (unwrap (length msk)) idxs).
        - int (length msk) \<le> i \<and> i < int (length msk)"
      using unwrap_signed by (auto simp: list_all_iff)
    from index_assign_in_range [OF this, of v]
    obtain m where "index_assign msk (map (unwrap (length msk)) idxs) v = Inr m"
      by blast
    with assms show ?thesis by (simp add: fancy_assign_wrapped [OF unsigned True])
  next
    case False
    with assms show ?thesis by (simp add: fancy_assign_refused [OF unsigned False])
  qed
qed

lemma fancy_assign_out_of_range:
  assumes "i \<in> set idxs"
    and "i < - int (length msk) \<or> int (length msk) \<le> i"
    and "i < 2 ^ 64 - int (length msk) \<or> 2 ^ 64 \<le> i"
  shows "fancy_assign msk idxs v = Inl IndexError"
proof (rule fancy_assign_refused)
  from assms(2) have "\<not> signed_index (length msk) i"
    by (auto simp: signed_index_def)
  with assms(1) show "\<not> list_all (signed_index (length msk)) idxs"
    by (auto simp: list_all_iff)
  from assms(2,3) have "\<not> wrapped_index (length msk) i"
    by (auto simp: wrapped_index_def)
  with assms(1) show "\<not> list_all (wrapped_index (length msk)) idxs"
    by (auto simp: list_all_iff)
qed

text \<open>
  On an axis that numpy can hold, \<open>fancy_assign\<close> is the conversion of the list to an index
  array followed by the assignment with its bounds check.
\<close>

lemma index_array_cases:
  obtains (int64) "\<forall>i\<in>set idxs. - (2 ^ 63) \<le> i \<and> i < 2 ^ 63" "index_array idxs = Inr idxs"
    | (uint64) "\<exists>i\<in>set idxs. 2 ^ 63 \<le> i" "\<forall>i\<in>set idxs. 0 \<le> i \<and> i < 2 ^ 64"
        "index_array idxs = Inr (map (\<lambda>i. if 2 ^ 63 \<le> i then i - 2 ^ 64 else i) idxs)"
    | (other) "\<exists>i\<in>set idxs. i < - (2 ^ 63) \<or> 2 ^ 63 \<le> i"
        "\<exists>i\<in>set idxs. i < 0 \<or> 2 ^ 64 \<le> i" "index_array idxs = Inl IndexError"
proof (cases "list_all (\<lambda>i. - (2 ^ 63) \<le> i \<and> i < 2 ^ 63) idxs")
  case True
  then have "index_array idxs = Inr idxs" unfolding index_array_def by (simp only: if_True)
  with True int64 show ?thesis by (simp add: list_all_iff)
next
  case c1: False
  show ?thesis
  proof (cases "list_all (\<lambda>i. 0 \<le> i \<and> i < 2 ^ 64) idxs")
    case True
    with c1 have "index_array idxs
        = Inr (map (\<lambda>i. if 2 ^ 63 \<le> i then i - 2 ^ 64 else i) idxs)"
      unfolding index_array_def by (simp only: if_True if_False)
    moreover have "\<exists>i\<in>set idxs. 2 ^ 63 \<le> i"
    proof -
      from c1 obtain i where i: "i \<in> set idxs" "\<not> (- (2 ^ 63) \<le> i \<and> i < 2 ^ 63)"
        by (auto simp: list_all_iff)
      moreover from True i(1) have "0 \<le> i" by (auto simp: list_all_iff)
      ultimately have "2 ^ 63 \<le> i" by simp
      with i(1) show ?thesis by blast
    qed
    moreover from True have "\<forall>i\<in>set idxs. 0 \<le> i \<and> i < 2 ^ 64" by (simp add: list_all_iff)
    ultimately show ?thesis using uint64 by blast
  next
    case False
    with c1 have "index_array idxs = Inl IndexError"
      unfolding index_array_def by (simp only: if_False)
    moreover from c1 have "\<exists>i\<in>set idxs. i < - (2 ^ 63) \<or> 2 ^ 63 \<le> i"
      by (auto simp: list_all_iff not_le not_less)
    moreover from False have "\<exists>i\<in>set idxs. i < 0 \<or> 2 ^ 64 \<le> i"
      by (auto simp: list_all_iff not_le not_less)
    ultimately show ?thesis using other by blast
  qed
qed

lemma fancy_assign_index_array:
  assumes "length msk < 2 ^ 63"
  shows "fancy_assign msk idxs v =
     (case index_array idxs of Inl e \<Rightarrow> Inl e | Inr ks \<Rightarrow> index_assign msk ks v)"
proof -
  let ?n = "length msk"
  let ?w = "\<lambda>i :: int. if 2 ^ 63 \<le> i then i - 2 ^ 64 else i"
  from assms have n: "int ?n < 2 ^ 63" by simp
  show ?thesis
  proof (cases idxs rule: index_array_cases)
    case int64
    show ?thesis
    proof (cases "list_all (signed_index ?n) idxs")
      case True
      then show ?thesis by (simp add: int64(2) fancy_assign_def)
    next
      case False
      then obtain i where i: "i \<in> set idxs" "i < - int ?n \<or> int ?n \<le> i"
        by (force simp: list_all_iff signed_index_def)
      with int64(1) n have "i < 2 ^ 64 - int ?n \<or> 2 ^ 64 \<le> i" by force
      with i show ?thesis
        by (simp add: int64(2) fancy_assign_out_of_range [of i]
              index_assign_out_of_range [of i])
    qed
  next
    case uint64
    from uint64(1) n have unsigned: "\<not> list_all (signed_index ?n) idxs"
      by (force simp: list_all_iff signed_index_def)
    show ?thesis
    proof (cases "list_all (wrapped_index ?n) idxs")
      case True
      with n have eq: "map (unwrap ?n) idxs = map ?w idxs"
        by (intro map_cong) (auto simp: list_all_iff wrapped_index_def unwrap_def)
      show ?thesis
        unfolding uint64(3) fancy_assign_wrapped [OF unsigned True] eq by simp
    next
      case False
      then obtain i where i: "i \<in> set idxs" "\<not> wrapped_index ?n i"
        by (auto simp: list_all_iff)
      with uint64(2) n have "?w i \<in> set (map ?w idxs)" "?w i < - int ?n \<or> int ?n \<le> ?w i"
        by (auto simp: wrapped_index_def split: if_splits)
      then have "index_assign msk (map ?w idxs) v = Inl IndexError"
        by (rule index_assign_out_of_range)
      then show ?thesis
        by (simp add: uint64(3) fancy_assign_refused [OF unsigned False])
    qed
  next
    case other
    from other(1) n have unsigned: "\<not> list_all (signed_index ?n) idxs"
      by (force simp: list_all_iff signed_index_def)
    from other(2) n have "\<not> list_all (wrapped_index ?n) idxs"
      by (force simp: list_all_iff wrapped_index_def)
    from fancy_assign_refused [OF unsigned this] show ?thesis by (simp add: other(3))
  qed
qed

lemma bool_index_nth:
  "length msk = length xs \<Longrightarrow>
     map fst (filter snd (zip xs msk)) = map ((!) xs) (filter ((!) msk) [0..<length xs])"
proof (induction xs arbitrary: msk rule: rev_induct)
  case Nil
  then show ?case by simp
next
  case (snoc x xs)
  from snoc.prems obtain b ms where msk: "msk = ms @ [b]" and len: "length ms = length xs"
    by (cases msk rule: rev_cases) auto
  have at_end: "(ms @ [b]) ! length xs = b" "(xs @ [x]) ! length xs = x"
    using len by (simp_all add: nth_append)
  have front: "filter ((!) (ms @ [b])) [0..<length xs] = filter ((!) ms) [0..<length xs]"
    using len by (intro filter_cong) (auto simp: nth_append)
  have front': "map ((!) (xs @ [x])) (filter ((!) ms) [0..<length xs])
                   = map ((!) xs) (filter ((!) ms) [0..<length xs])"
    by (intro map_cong) (auto simp: nth_append)
  have "map fst (filter snd (zip (xs @ [x]) (ms @ [b])))
          = map fst (filter snd (zip xs ms)) @ (if b then [x] else [])"
    using len by simp
  also have "\<dots> = map ((!) xs) (filter ((!) ms) [0..<length xs]) @ (if b then [x] else [])"
    using snoc.IH [OF len] by simp
  also have "\<dots> = map ((!) (xs @ [x])) (filter ((!) (ms @ [b])) [0..<length xs])
                     @ (if b then [x] else [])"
    by (simp only: front front')
  also have "\<dots> = map ((!) (xs @ [x])) (filter ((!) (ms @ [b])) [0..<length (xs @ [x])])"
    using at_end by simp
  finally show ?case by (simp only: msk)
qed

lemma keep_mask_survivors:
  assumes "index_assign (replicate n True) removing False = Inr m"
  shows "filter ((!) m) [0..<n] = survivors n removing"
  unfolding survivors_def
proof (rule filter_cong [OF refl])
  fix k assume "k \<in> set [0..<n]"
  then have "k < length (replicate n True)" by simp
  from index_assign_nth [OF assms this]
  show "m ! k = (int k \<notin> set removing \<and> int k - int n \<notin> set removing)"
    using \<open>k \<in> set [0..<n]\<close> by auto
qed

lemma bool_index_survivors:
  assumes "index_assign (replicate n True) removing False = Inr m" and "length xs = n"
  shows "bool_index xs m = Inr (map ((!) xs) (survivors n removing))"
proof -
  from index_assign_length [OF assms(1)] assms(2) have len: "length m = length xs" by simp
  with bool_index_nth [OF len] keep_mask_survivors [OF assms(1)] assms(2)
  show ?thesis by (simp add: bool_index_def)
qed

lemma bool_index_opt_survivors:
  assumes "index_assign (replicate n True) removing False = Inr m"
    and "case xs of None \<Rightarrow> True | Some ys \<Rightarrow> length ys = n"
  shows "bool_index_opt xs m = Inr (map_option (\<lambda>ys. map ((!) ys) (survivors n removing)) xs)"
  using assms by (cases xs) (simp_all add: bool_index_survivors)

lemma survivors_sorted: "sorted_wrt (<) (survivors n removing)"
  by (simp add: survivors_def sorted_wrt_filter)

lemma survivors_bound: "k \<in> set (survivors n removing) \<Longrightarrow> k < n"
  by (simp add: survivors_def)

lemma survivors_Nil: "survivors n [] = [0..<n]"
  by (simp add: survivors_def)

lemma map_nth_upt: "length xs = n \<Longrightarrow> map ((!) xs) [0..<n] = xs"
  by (auto simp: map_nth)

subsection \<open>Row removal, step by step\<close>

lemma basic_stats_state:
  "snd (basic_stats self) =
     self\<lparr>stdout := stdout self @
        (if verbose self
         then [Embedding_shape (shape (matrix self)),
               Mean_norm (mean (map l2_norm (rows (matrix self)))),
               Std_of_norms (std (map l2_norm (rows (matrix self))))]
         else [])\<rparr>"
  by (simp add: basic_stats_def Let_def print_def matrix_def)

lemma basic_stats_value:
  "fst (basic_stats self) =
     \<lparr>stats_shape = shape (matrix self),
      mean_norm = mean (map l2_norm (rows (matrix self))),
      std_norm = std (map l2_norm (rows (matrix self)))\<rparr>"
  by (simp add: basic_stats_def Let_def)

lemma aligned_print: "aligned (print m self) = aligned self"
  by (simp add: aligned_def print_def matrix_def split: option.splits)

lemma remove_indices_steps:
  assumes "removing \<noteq> []"
    and "fancy_assign (replicate (n_samples self) True) removing False = Inr m"
    and "bool_index (rows (matrix self)) m = Inr rs"
    and "bool_index_opt (timestamps self) m = Inr ts"
    and "bool_index_opt (labels self) m = Inr ls"
  shows "remove_indices self removing =
     (let self5 = self\<lparr>heap := heap self @ [(matrix self)\<lparr>rows := rs\<rparr>],
                       embeddings := length (heap self), timestamps := ts, labels := ls,
                       n_dim := ncols (matrix self), n_samples := length rs\<rparr>;
          self6 = (if verbose self then print (Embeddings_removed (length removing)) self5
                   else self5)
      in (Inr (Some (fst (basic_stats self6))), snd (basic_stats self6)))"
  using assms
  by (simp add: remove_indices_def bool_index_rows_def alloc_def Let_def matrix_def shape_def
        print_def case_prod_beta)

lemma remove_indices_masked:
  assumes "aligned self" and "removing \<noteq> []"
    and "fancy_assign (replicate (n_samples self) True) removing False = Inr m"
    and "index_assign (replicate (n_samples self) True) ks False = Inr m"
  shows "remove_indices self removing =
     (let kept = survivors (n_samples self) ks;
          self5 = self\<lparr>heap := heap self @
                           [(matrix self)\<lparr>rows := map ((!) (rows (matrix self))) kept\<rparr>],
                       embeddings := length (heap self),
                       timestamps := map_option (\<lambda>ts. map ((!) ts) kept) (timestamps self),
                       labels := map_option (\<lambda>ls. map ((!) ls) kept) (labels self),
                       n_dim := ncols (matrix self), n_samples := length kept\<rparr>;
          self6 = (if verbose self then print (Embeddings_removed (length removing)) self5
                   else self5)
      in (Inr (Some (fst (basic_stats self6))), snd (basic_stats self6)))"
proof -
  from assms(1) have n: "length (rows (matrix self)) = n_samples self"
    and t: "case timestamps self of None \<Rightarrow> True | Some ys \<Rightarrow> length ys = n_samples self"
    and l: "case labels self of None \<Rightarrow> True | Some ys \<Rightarrow> length ys = n_samples self"
    by (auto simp: aligned_def split: option.splits)
  show ?thesis
    using remove_indices_steps [OF assms(2,3) bool_index_survivors [OF assms(4) n]
        bool_index_opt_survivors [OF assms(4) t] bool_index_opt_survivors [OF assms(4) l]]
    by (simp add: Let_def)
qed

lemma selects_all: "aligned self \<Longrightarrow> matrix self' = matrix self \<Longrightarrow>
  timestamps self' = timestamps self \<Longrightarrow> labels self' = labels self \<Longrightarrow>
  selects self self' [0..<n_samples self]"
  by (auto simp: selects_def aligned_def map_nth_upt split: option.splits)

lemma selects_transfer:
  "matrix s2 = matrix self \<Longrightarrow> timestamps s2 = timestamps self \<Longrightarrow> labels s2 = labels self
     \<Longrightarrow> selects s2 s' kept \<Longrightarrow> selects self s' kept"
  by (simp add: selects_def)

lemma aligned_transfer:
  "aligned self \<Longrightarrow> matrix s2 = matrix self \<Longrightarrow> timestamps s2 = timestamps self
     \<Longrightarrow> labels s2 = labels self \<Longrightarrow> n_samples s2 = n_samples self
     \<Longrightarrow> embeddings s2 < length (heap s2) \<Longrightarrow> aligned s2"
  by (simp add: aligned_def split: option.splits)

lemma remove_indices_selects:
  assumes "aligned self" and "removing \<noteq> []"
    and "fancy_assign (replicate (n_samples self) True) removing False = Inr m"
    and "index_assign (replicate (n_samples self) True) ks False = Inr m"
  shows "selects self (snd (remove_indices self removing)) (survivors (n_samples self) ks)"
    and "aligned (snd (remove_indices self removing))"
    and "n_samples (snd (remove_indices self removing))
           = length (survivors (n_samples self) ks)"
    and "\<exists>st. fst (remove_indices self removing) = Inr (Some st)"
  by (simp_all add: remove_indices_masked [OF assms] Let_def basic_stats_state selects_def
        aligned_def matrix_def print_def option.map_comp comp_def split: option.splits)

lemma remove_indices_cases:
  assumes "aligned self"
  obtains (empty) "removing = []"
      "remove_indices self removing
         = (Inr None, if verbose self then print Zero_embeddings_removed self else self)"
    | (raise) "removing \<noteq> []" "remove_indices self removing = (Inl IndexError, self)"
        "\<not> (\<forall>i\<in>set removing. - int (n_samples self) \<le> i \<and> i < int (n_samples self))"
    | (removed) m ks where "removing \<noteq> []"
        "fancy_assign (replicate (n_samples self) True) removing False = Inr m"
        "index_assign (replicate (n_samples self) True) ks False = Inr m"
        "(\<forall>i\<in>set removing. - int (n_samples self) \<le> i \<and> i < int (n_samples self))
           \<longrightarrow> ks = removing"
proof (cases "removing = []")
  case True
  then show ?thesis using empty by (simp add: remove_indices_def)
next
  case ne: False
  show ?thesis
  proof (cases "fancy_assign (replicate (n_samples self) True) removing False")
    case (Inl e)
    from fancy_assign_Inl [OF Inl] have "e = IndexError"
      "\<not> (\<forall>i\<in>set removing. - int (n_samples self) \<le> i \<and> i < int (n_samples self))"
      by simp_all
    moreover from ne Inl have "remove_indices self removing = (Inl e, self)"
      by (simp add: remove_indices_def)
    ultimately show ?thesis using ne raise by blast
  next
    case (Inr m)
    from fancy_assign_Inr [OF Inr] obtain ks
      where "index_assign (replicate (n_samples self) True) ks False = Inr m"
        "(\<forall>i\<in>set removing. - int (n_samples self) \<le> i \<and> i < int (n_samples self))
           \<longrightarrow> ks = removing"
      by auto
    with ne Inr removed show ?thesis by blast
  qed
qed

lemma remove_indices_aligned:
  assumes "aligned self"
  shows "aligned (snd (remove_indices self removing))"
proof (rule remove_indices_cases [OF assms, of removing], goal_cases)
  case 1
  then show ?case using assms by (simp add: aligned_print)
next
  case 2
  then show ?case using assms by simp
next
  case (3 m ks)
  then show ?case using remove_indices_selects(2) [OF assms] by blast
qed

lemma remove_indices_selects_survivors:
  assumes "aligned self"
    and "\<forall>i\<in>set removing. - int (n_samples self) \<le> i \<and> i < int (n_samples self)"
  shows "(\<exists>r. fst (remove_indices self removing) = Inr r) \<and>
         selects self (snd (remove_indices self removing))
           (survivors (n_samples self) removing) \<and>
         n_samples (snd (remove_indices self removing))
           = length (survivors (n_samples self) removing)"
proof (rule remove_indices_cases [OF assms(1), of removing], goal_cases)
  case 1
  let ?s' = "snd (remove_indices self removing)"
  from 1 have same: "matrix ?s' = matrix self" "timestamps ?s' = timestamps self"
    "labels ?s' = labels self" "n_samples ?s' = n_samples self"
    by (simp_all add: print_def matrix_def)
  have "selects self ?s' [0..<n_samples self]"
    by (rule selects_all [OF assms(1) same(1-3)])
  then show ?case using 1(1) 1(2) same by (simp add: survivors_Nil)
next
  case 2
  then show ?case using assms(2) by blast
next
  case (3 m ks)
  with assms(2) have "ks = removing" by blast
  with remove_indices_selects [OF assms(1) 3(1-3)] show ?case by auto
qed

lemma remove_indices_selects_some:
  assumes "aligned self"
  shows "\<exists>kept. sorted_wrt (<) kept \<and> (\<forall>k\<in>set kept. k < n_samples self) \<and>
           selects self (snd (remove_indices self removing)) kept \<and>
           n_samples (snd (remove_indices self removing)) = length kept"
proof (rule remove_indices_cases [OF assms, of removing], goal_cases)
  case 1
  let ?s' = "snd (remove_indices self removing)"
  from 1 have same: "matrix ?s' = matrix self" "timestamps ?s' = timestamps self"
    "labels ?s' = labels self" "n_samples ?s' = n_samples self"
    by (simp_all add: print_def matrix_def)
  have "selects self ?s' [0..<n_samples self]"
    by (rule selects_all [OF assms same(1-3)])
  with same(4) show ?case by (intro exI [of _ "[0..<n_samples self]"]) simp
next
  case 2
  have "selects self self [0..<n_samples self]"
    by (rule selects_all [OF assms]) simp_all
  with 2 show ?case by (intro exI [of _ "[0..<n_samples self]"]) simp
next
  case (3 m ks)
  from remove_indices_selects(1,3) [OF assms 3(1-3)] survivors_sorted survivors_bound
  show ?case by (intro exI [of _ "survivors (n_samples self) ks"]) blast
qed

text \<open>
  Without alignment the removal is not atomic: with three timestamps on four rows, the matrix
  is replaced before the mask meets the timestamps, and the IndexError raised there leaves
  the new matrix beside the old parallel arrays and the old row count.
\<close>

lemma remove_indices_misaligned:
  "remove_indices (demo\<lparr>timestamps := Some [10, 20, 30]\<rparr>) [0] =
     (Inl IndexError,
      demo\<lparr>timestamps := Some [10, 20, 30],
           heap := [demo_matrix, \<lparr>ncols = 2, rows = [[3, 4], [0, 0], [0, 5]]\<rparr>],
           embeddings := 1\<rparr>)"
  by (simp add: remove_indices_def demo_def demo_matrix_def fancy_assign_def signed_index_def
        wrapped_index_def unwrap_def normalize_index_def
        bool_index_rows_def bool_index_def matrix_def alloc_def Let_def eval_nat_numeral)

text \<open>
  The index \<open>2^64 - 1\<close> is stored unsigned and read as -1: the call returns normally and
  drops the last row, as the index -1 does.
\<close>

lemma remove_indices_wrapped_index:
  "fst (remove_indices demo [2 ^ 64 - 1]) \<noteq> Inl IndexError \<and>
   rows (matrix (snd (remove_indices demo [2 ^ 64 - 1]))) = [[3, 4], [3, 4], [0, 0]] \<and>
   snd (remove_indices demo [2 ^ 64 - 1]) = snd (remove_indices demo [- 1])"
  by (simp add: remove_indices_def demo_def demo_matrix_def fancy_assign_def signed_index_def
        wrapped_index_def unwrap_def normalize_index_def
        bool_index_rows_def bool_index_def matrix_def alloc_def basic_stats_def Let_def shape_def
        print_def eval_nat_numeral)

subsection \<open>The two finders leave the object alone\<close>

lemma find_duplicates_faiss:
  assumes "FAISS_AVAILABLE lib"
  shows "find_duplicates lib self threshold neighbors =
     (let self3 = self\<lparr>heap := heap self @ [matrix self, normalized_L2 (matrix self)]\<rparr>
      in case faiss_search lib (n_dim self) (normalized_L2 (matrix self)) (neighbors + 1) of
           Inl e \<Rightarrow> (Inl e, self3)
         | Inr (distances, indices) \<Rightarrow>
            (Inr (collect_duplicates (\<lambda>dist. dist) threshold distances indices),
             if verbose self
             then print (Found_near_duplicates
                    (length (collect_duplicates (\<lambda>dist. dist) threshold distances indices))) self3
             else self3))"
  using assms
  by (simp add: find_duplicates_def alloc_def faiss_normalize_L2_def Let_def matrix_def
        nth_append list_update_append split: sum.splits)

lemma find_duplicates_sklearn:
  assumes "\<not> FAISS_AVAILABLE lib"
  shows "find_duplicates lib self threshold neighbors =
     (case kneighbors lib neighbors (matrix self) of
        Inl e \<Rightarrow> (Inl e, self)
      | Inr (distances, indices) \<Rightarrow>
         (Inr (collect_duplicates (\<lambda>dist. 1 - dist) threshold distances indices),
          if verbose self
          then print (Found_near_duplicates
                 (length (collect_duplicates (\<lambda>dist. 1 - dist) threshold distances indices))) self
          else self))"
  using assms by (simp add: find_duplicates_def Let_def split: sum.splits)

lemma find_duplicates_frame:
  assumes "embeddings self < length (heap self)"
  shows "matrix (snd (find_duplicates lib self threshold neighbors)) = matrix self"
    and "embeddings (snd (find_duplicates lib self threshold neighbors)) = embeddings self"
    and "timestamps (snd (find_duplicates lib self threshold neighbors)) = timestamps self"
    and "labels (snd (find_duplicates lib self threshold neighbors)) = labels self"
    and "n_samples (snd (find_duplicates lib self threshold neighbors)) = n_samples self"
    and "n_dim (snd (find_duplicates lib self threshold neighbors)) = n_dim self"
    and "verbose (snd (find_duplicates lib self threshold neighbors)) = verbose self"
    and "take (length (heap self)) (heap (snd (find_duplicates lib self threshold neighbors)))
           = heap self"
  using assms
  by (cases "FAISS_AVAILABLE lib";
      simp add: find_duplicates_faiss find_duplicates_sklearn Let_def print_def matrix_def
        nth_append split: sum.splits prod.splits)+

lemma find_outliers_frame:
  "snd (find_outliers lib self contamination) =
     self\<lparr>stdout := stdout (snd (find_outliers lib self contamination))\<rparr>"
  by (simp add: find_outliers_def Let_def print_def split: sum.splits)

lemma find_duplicates_heap_grows:
  "length (heap self) \<le> length (heap (snd (find_duplicates lib self threshold neighbors)))"
  by (cases "FAISS_AVAILABLE lib")
    (simp_all add: find_duplicates_faiss find_duplicates_sklearn Let_def print_def
       split: sum.splits prod.splits)

lemma find_duplicates_aligned:
  assumes "aligned self"
  shows "aligned (snd (find_duplicates lib self threshold neighbors))"
proof -
  from assms have valid: "embeddings self < length (heap self)" by (simp add: aligned_def)
  note frame = find_duplicates_frame [OF valid, of lib threshold neighbors]
  from valid find_duplicates_heap_grows [of self lib threshold neighbors] frame(2)
  have "embeddings (snd (find_duplicates lib self threshold neighbors))
          < length (heap (snd (find_duplicates lib self threshold neighbors)))"
    by simp
  with assms frame show ?thesis by (intro aligned_transfer [OF assms]) simp_all
qed

subsection \<open>Removal after a finder\<close>

lemma remove_duplicates_state:
  "snd (remove_duplicates lib self threshold neighbors) =
     (let self1 = snd (find_duplicates lib self threshold neighbors)
      in case fst (find_duplicates lib self threshold neighbors) of
           Inl e \<Rightarrow> self1
         | Inr duplicates \<Rightarrow>
             snd (remove_indices
                   (if verbose self1
                    then print (Removing_near_duplicates
                            (length (remdups (map (\<lambda>(_, index, _). index) duplicates)))) self1
                    else self1)
                   (remdups (map (\<lambda>(_, index, _). index) duplicates))))"
  by (simp add: remove_duplicates_def Let_def split: prod.splits sum.splits)

lemma remove_duplicates_value:
  assumes "fst (find_duplicates lib self threshold neighbors) = Inr duplicates"
  shows "fst (remove_duplicates lib self threshold neighbors) =
     (let self1 = snd (find_duplicates lib self threshold neighbors)
      in case fst (remove_indices
                   (if verbose self1
                    then print (Removing_near_duplicates
                            (length (remdups (map (\<lambda>(_, index, _). index) duplicates)))) self1
                    else self1)
                   (remdups (map (\<lambda>(_, index, _). index) duplicates))) of
           Inl e \<Rightarrow> Inl e | Inr _ \<Rightarrow> Inr ())"
proof -
  from assms obtain self1 where "find_duplicates lib self threshold neighbors = (Inr duplicates, self1)"
    by (cases "find_duplicates lib self threshold neighbors") simp
  then show ?thesis
    by (simp add: remove_duplicates_def Let_def split: prod.splits sum.splits)
qed

lemma remove_outliers_state:
  "snd (remove_outliers lib self contamination) =
     (let self1 = snd (find_outliers lib self contamination)
      in case fst (find_outliers lib self contamination) of
           Inl e \<Rightarrow> self1
         | Inr outliers \<Rightarrow>
             snd (remove_indices
                   (if verbose self1 then print (Removing_outliers (length outliers)) self1
                    else self1)
                   (map int outliers)))"
  by (simp add: remove_outliers_def Let_def split: prod.splits sum.splits)

lemma removal_after_observer:
  assumes "aligned self" and "aligned self2"
    and "matrix self2 = matrix self" and "timestamps self2 = timestamps self"
    and "labels self2 = labels self" and "n_samples self2 = n_samples self"
  shows "aligned (snd (remove_indices self2 removing)) \<and>
         (\<exists>kept. sorted_wrt (<) kept \<and> (\<forall>k\<in>set kept. k < n_samples self) \<and>
            selects self (snd (remove_indices self2 removing)) kept \<and>
            n_samples (snd (remove_indices self2 removing)) = length kept)"
proof -
  from remove_indices_selects_some [OF assms(2), of removing]
  obtain kept where "sorted_wrt (<) kept" "\<forall>k\<in>set kept. k < n_samples self2"
    "selects self2 (snd (remove_indices self2 removing)) kept"
    "n_samples (snd (remove_indices self2 removing)) = length kept"
    by blast
  with assms(6) selects_transfer [OF assms(3-5)]
  have "sorted_wrt (<) kept \<and> (\<forall>k\<in>set kept. k < n_samples self) \<and>
        selects self (snd (remove_indices self2 removing)) kept \<and>
        n_samples (snd (remove_indices self2 removing)) = length kept"
    by auto
  with remove_indices_aligned [OF assms(2)] show ?thesis by blast
qed

lemma observer_keeps_all:
  assumes "aligned self" and "aligned self1"
    and "matrix self1 = matrix self" and "timestamps self1 = timestamps self"
    and "labels self1 = labels self" and "n_samples self1 = n_samples self"
  shows "aligned self1 \<and>
         (\<exists>kept. sorted_wrt (<) kept \<and> (\<forall>k\<in>set kept. k < n_samples self) \<and>
            selects self self1 kept \<and> n_samples self1 = length kept)"
  using assms selects_all [OF assms(1,3-5)]
  by (intro conjI exI [of _ "[0..<n_samples self]"]) simp_all

lemma remove_duplicates_selects_some:
  assumes "aligned self"
  shows "aligned (snd (remove_duplicates lib self threshold neighbors)) \<and>
         (\<exists>kept. sorted_wrt (<) kept \<and> (\<forall>k\<in>set kept. k < n_samples self) \<and>
            selects self (snd (remove_duplicates lib self threshold neighbors)) kept \<and>
            n_samples (snd (remove_duplicates lib self threshold neighbors)) = length kept)"
proof -
  define self1 where "self1 = snd (find_duplicates lib self threshold neighbors)"
  from assms have valid: "embeddings self < length (heap self)" by (simp add: aligned_def)
  note frame = find_duplicates_frame [OF valid, of lib threshold neighbors, folded self1_def]
  have al1: "aligned self1"
    using find_duplicates_aligned [OF assms] by (simp add: self1_def)
  show ?thesis
  proof (cases "fst (find_duplicates lib self threshold neighbors)")
    case (Inl e)
    then have "snd (remove_duplicates lib self threshold neighbors) = self1"
      by (simp add: remove_duplicates_state self1_def)
    with observer_keeps_all [OF assms al1 frame(1,3,4,5)] show ?thesis by simp
  next
    case (Inr duplicates)
    define removing where "removing = remdups (map (\<lambda>(_, index, _). index) duplicates)"
    define self2 where "self2 = (if verbose self1
        then print (Removing_near_duplicates (length removing)) self1 else self1)"
    have al2: "aligned self2" using al1 by (simp add: self2_def aligned_print)
    have same: "matrix self2 = matrix self" "timestamps self2 = timestamps self"
      "labels self2 = labels self" "n_samples self2 = n_samples self"
      using frame by (simp_all add: self2_def print_def matrix_def)
    have "snd (remove_duplicates lib self threshold neighbors)
            = snd (remove_indices self2 removing)"
      by (simp add: remove_duplicates_state Inr Let_def self2_def self1_def removing_def)
    with removal_after_observer [OF assms al2 same, of removing] show ?thesis by simp
  qed
qed

lemma remove_outliers_selects_some:
  assumes "aligned self"
  shows "aligned (snd (remove_outliers lib self contamination)) \<and>
         (\<exists>kept. sorted_wrt (<) kept \<and> (\<forall>k\<in>set kept. k < n_samples self) \<and>
            selects self (snd (remove_outliers lib self contamination)) kept \<and>
            n_samples (snd (remove_outliers lib self contamination)) = length kept)"
proof -
  define self1 where "self1 = snd (find_outliers lib self contamination)"
  have frame: "matrix self1 = matrix self" "timestamps self1 = timestamps self"
    "labels self1 = labels self" "n_samples self1 = n_samples self"
    "embeddings self1 = embeddings self" "heap self1 = heap self"
    unfolding self1_def by (subst find_outliers_frame, simp add: matrix_def)+
  have al1: "aligned self1"
    using assms frame by (intro aligned_transfer [OF assms]) (simp_all add: aligned_def)
  show ?thesis
  proof (cases "fst (find_outliers lib self contamination)")
    case (Inl e)
    then have "snd (remove_outliers lib self contamination) = self1"
      by (simp add: remove_outliers_state self1_def)
    with observer_keeps_all [OF assms al1 frame(1-4)] show ?thesis by simp
  next
    case (Inr outliers)
    define self2 where "self2 = (if verbose self1
        then print (Removing_outliers (length outliers)) self1 else self1)"
    have al2: "aligned self2" using al1 by (simp add: self2_def aligned_print)
    have same: "matrix self2 = matrix self" "timestamps self2 = timestamps self"
      "labels self2 = labels self" "n_samples self2 = n_samples self"
      using frame by (simp_all add: self2_def print_def matrix_def)
    have "snd (remove_outliers lib self contamination)
            = snd (remove_indices self2 (map int outliers))"
      by (simp add: remove_outliers_state Inr Let_def self2_def self1_def)
    with removal_after_observer [OF assms al2 same, of "map int outliers"] show ?thesis by simp
  qed
qed

subsection \<open>Reported pairs\<close>

lemma set_zip_tl: "set (zip (tl a) (tl b)) \<subseteq> set (zip a b)"
  by (cases a; cases b) auto

lemma collect_duplicates_elem:
  assumes "(i, j, s) \<in> set (collect_duplicates sim threshold distances indices)"
  shows "int i < j" and "threshold \<le> s"
    and "i < length distances" and "i < length indices"
    and "\<exists>dst. s = sim dst \<and> (dst, j) \<in> set (zip (distances ! i) (indices ! i))"
proof -
  from assms obtain dst where d: "(dst, j) \<in> set (zip (tl (distances ! i)) (tl (indices ! i)))"
    and s: "s = sim dst" "threshold \<le> sim dst" "int i < j"
    and i: "i < length distances" "i < length indices"
    by (auto simp: collect_duplicates_def row_duplicates_def in_set_enumerate_eq)
  from d set_zip_tl have "(dst, j) \<in> set (zip (distances ! i) (indices ! i))" by blast
  with s i show "int i < j" "threshold \<le> s" "i < length distances" "i < length indices"
    "\<exists>dst. s = sim dst \<and> (dst, j) \<in> set (zip (distances ! i) (indices ! i))"
    by auto
qed

lemma neighbours_ok_elem:
  assumes "neighbours_ok d X distances indices" and "i < length X"
    and "(dst, j) \<in> set (zip (distances ! i) (indices ! i))"
  shows "j = - 1 \<or> (0 \<le> j \<and> j < int (length X) \<and> dst = d (X ! i) (X ! nat j))"
proof -
  from assms(1,2) have "(X ! i, distances ! i, indices ! i) \<in> set (zip X (zip distances indices))"
    by (auto simp: neighbours_ok_def in_set_zip intro!: exI [of _ i])
  with assms(1,3) show ?thesis
    by (auto simp: neighbours_ok_def list_all_iff)
qed

subsection \<open>Norms and inner products\<close>

lemma sum_squares_nonneg: "0 \<le> sum_list (map (\<lambda>x. x * x) (r :: real list))"
  by (rule sum_list_nonneg) auto

lemma l2_norm_nonneg: "0 \<le> l2_norm r"
  by (simp add: l2_norm_def sum_squares_nonneg)

lemma l2_norm_zero_iff: "l2_norm r = 0 \<longleftrightarrow> (\<forall>x\<in>set r. x = 0)"
proof -
  have "sum_list (map (\<lambda>x. x * x) r) = 0 \<longleftrightarrow> (\<forall>y\<in>set (map (\<lambda>x. x * x) r). y = 0)"
    by (rule sum_list_nonneg_eq_0_iff) auto
  then show ?thesis by (auto simp: l2_norm_def)
qed

lemma l1_norm_zero_iff: "l1_norm r = 0 \<longleftrightarrow> (\<forall>x\<in>set r. x = 0)"
proof -
  have "sum_list (map abs r) = 0 \<longleftrightarrow> (\<forall>y\<in>set (map abs r). y = 0)"
    by (rule sum_list_nonneg_eq_0_iff) auto
  then show ?thesis by (auto simp: l1_norm_def)
qed

lemma sum_squares_scaled:
  "sum_list (map (\<lambda>x. x * x) (map (\<lambda>x. x / c) r)) = sum_list (map (\<lambda>x. x * x) r) / (c * c)"
  for c :: real
  by (induction r) (simp_all add: add_divide_distrib)

lemma l2_norm_scaled: "l2_norm (map (\<lambda>x. x / c) r) = l2_norm r / \<bar>c\<bar>"
proof -
  have "l2_norm (map (\<lambda>x. x / c) r) = sqrt (sum_list (map (\<lambda>x. x * x) r) / (c * c))"
    unfolding l2_norm_def by (simp only: sum_squares_scaled)
  then show ?thesis by (simp add: l2_norm_def real_sqrt_divide)
qed

lemma l2_norm_unit: "l2_norm r \<noteq> 0 \<Longrightarrow> l2_norm (map (\<lambda>x. x / l2_norm r) r) = 1"
  using l2_norm_nonneg [of r] by (simp add: l2_norm_scaled)

lemma map_zip_map: "map (\<lambda>(r, n). F r n) (zip xs (map h xs)) = map (\<lambda>r. F r (h r)) xs"
  by (induction xs) simp_all

lemma map_div_one: "map (\<lambda>x. x / 1) r = (r :: real list)"
  by (induction r) simp_all

lemma dot_zero_left: "\<forall>x\<in>set a. x = 0 \<Longrightarrow> dot a b = 0"
proof (induction a arbitrary: b)
  case Nil
  then show ?case by (simp add: dot_def)
next
  case (Cons x a)
  then show ?case by (cases b) (simp_all add: dot_def)
qed

lemma dot_zero_right: "\<forall>x\<in>set b. x = 0 \<Longrightarrow> dot a b = 0"
proof (induction a arbitrary: b)
  case Nil
  then show ?case by (simp add: dot_def)
next
  case (Cons x a)
  then show ?case by (cases b) (simp_all add: dot_def)
qed

lemma dot_scaled: "dot (map (\<lambda>x. x / c) a) (map (\<lambda>y. y / e) b) = dot a b / (c * e)"
proof (induction a arbitrary: b)
  case Nil
  then show ?case by (simp add: dot_def)
next
  case (Cons x a)
  then show ?case by (cases b) (simp_all add: dot_def add_divide_distrib)
qed

lemma dot_scaled_left: "dot (map (\<lambda>x. x / c) a) b = dot a b / c"
  using dot_scaled [of c a 1 b] by (simp add: map_div_one)

lemma dot_scaled_right: "dot a (map (\<lambda>x. x / c) b) = dot a b / c"
  using dot_scaled [of 1 a c b] by (simp add: map_div_one)

lemma dot_renorm: "dot (renorm_L2 a) (renorm_L2 b) = cosine_similarity a b"
  using l2_norm_zero_iff [of a] l2_norm_zero_iff [of b]
  by (auto simp: renorm_L2_def cosine_similarity_def dot_scaled dot_scaled_left dot_scaled_right
        dot_zero_left dot_zero_right)

lemma rows_normalized_L2: "rows (normalized_L2 a) = map renorm_L2 (rows a)"
  by (simp add: normalized_L2_def)

subsection \<open>What a reported triple says\<close>

lemma find_duplicates_result:
  assumes "fst (find_duplicates lib self threshold neighbors) = Inr duplicates"
  obtains (faiss) distances indices where "FAISS_AVAILABLE lib"
      "faiss_search lib (n_dim self) (normalized_L2 (matrix self)) (neighbors + 1)
         = Inr (distances, indices)"
      "duplicates = collect_duplicates (\<lambda>dst. dst) threshold distances indices"
    | (sklearn) distances indices where "\<not> FAISS_AVAILABLE lib"
      "kneighbors lib neighbors (matrix self) = Inr (distances, indices)"
      "duplicates = collect_duplicates (\<lambda>dst. 1 - dst) threshold distances indices"
proof (cases "FAISS_AVAILABLE lib")
  case True
  with assms faiss show ?thesis
    by (auto simp: find_duplicates_faiss Let_def split: sum.splits prod.splits)
next
  case False
  with assms sklearn show ?thesis
    by (auto simp: find_duplicates_sklearn split: sum.splits prod.splits)
qed

lemma find_duplicates_elem:
  assumes "fst (find_duplicates lib self threshold neighbors) = Inr duplicates"
    and "(i, j, similarity) \<in> set duplicates"
  shows "int i < j \<and> threshold \<le> similarity \<and>
         (search_contract lib self neighbors \<longrightarrow>
            i < length (rows (matrix self)) \<and> j < int (length (rows (matrix self))) \<and>
            similarity = cosine_similarity (rows (matrix self) ! i) (rows (matrix self) ! nat j))"
  using assms(1)
proof (cases rule: find_duplicates_result)
  case (faiss distances indices)
  note elem = collect_duplicates_elem [OF assms(2) [unfolded faiss(3)]]
  from elem(5) obtain dst where dst: "similarity = dst"
    "(dst, j) \<in> set (zip (distances ! i) (indices ! i))" by auto
  have "i < length (rows (matrix self)) \<and> j < int (length (rows (matrix self))) \<and>
        similarity = cosine_similarity (rows (matrix self) ! i) (rows (matrix self) ! nat j)"
    if "search_contract lib self neighbors"
  proof -
    from that faiss(1,2)
    have ok: "neighbours_ok dot (map renorm_L2 (rows (matrix self))) distances indices"
      by (simp add: search_contract_def rows_normalized_L2)
    then have i: "i < length (rows (matrix self))"
      using elem(3) by (simp add: neighbours_ok_def)
    from neighbours_ok_elem [OF ok _ dst(2)] i elem(1)
    have "0 \<le> j" "j < int (length (rows (matrix self)))"
      "dst = dot (map renorm_L2 (rows (matrix self)) ! i)
                 (map renorm_L2 (rows (matrix self)) ! nat j)"
      by auto
    with i dst(1) show ?thesis by (simp add: dot_renorm)
  qed
  with elem(1,2) show ?thesis by blast
next
  case (sklearn distances indices)
  note elem = collect_duplicates_elem [OF assms(2) [unfolded sklearn(3)]]
  from elem(5) obtain dst where dst: "similarity = 1 - dst"
    "(dst, j) \<in> set (zip (distances ! i) (indices ! i))" by auto
  have "i < length (rows (matrix self)) \<and> j < int (length (rows (matrix self))) \<and>
        similarity = cosine_similarity (rows (matrix self) ! i) (rows (matrix self) ! nat j)"
    if "search_contract lib self neighbors"
  proof -
    from that sklearn(1,2)
    have ok: "neighbours_ok (\<lambda>a b. 1 - cosine_similarity a b) (rows (matrix self))
                distances indices"
      by (simp add: search_contract_def)
    then have i: "i < length (rows (matrix self))"
      using elem(3) by (simp add: neighbours_ok_def)
    from neighbours_ok_elem [OF ok i dst(2)] elem(1)
    have "0 \<le> j" "j < int (length (rows (matrix self)))"
      "dst = 1 - cosine_similarity (rows (matrix self) ! i) (rows (matrix self) ! nat j)"
      by auto
    with i dst(1) show ?thesis by simp
  qed
  with elem(1,2) show ?thesis by blast
qed

lemma count_kept:
  assumes "\<forall>j\<in>J. 0 \<le> j \<and> j < int n"
  shows "length (filter (\<lambda>k. int k \<notin> J) [0..<n]) + card J = n"
proof -
  let ?out = "{k. int k \<in> J} \<inter> {0..<n}" and ?in = "{k. int k \<notin> J} \<inter> {0..<n}"
  have "length (filter (\<lambda>k. int k \<notin> J) [0..<n]) = card ?in"
    by (simp add: distinct_length_filter)
  moreover have "J = int ` ?out"
  proof
    show "J \<subseteq> int ` ?out"
    proof
      fix j assume "j \<in> J"
      with assms have "nat j \<in> ?out" "j = int (nat j)" by auto
      then show "j \<in> int ` ?out" by (rule_tac image_eqI)
    qed
    show "int ` ?out \<subseteq> J" by auto
  qed
  then have "card J = card ?out"
    by (metis card_image inj_on_def of_nat_eq_iff)
  moreover have "card ?in + card ?out = card (?in \<union> ?out)"
    by (intro card_Un_disjoint [symmetric]) auto
  moreover have "?in \<union> ?out = {0..<n}" by auto
  ultimately show ?thesis by simp
qed

lemma cluster_minimum_not_second:
  assumes "\<forall>(i, j, s)\<in>set duplicates. int i < j"
    and "\<forall>a. same_cluster duplicates m a \<longrightarrow> m \<le> a"
  shows "int m \<notin> second_elements duplicates"
proof
  assume "int m \<in> second_elements duplicates"
  then obtain i s where mem: "(i, int m, s) \<in> set duplicates"
    by (auto simp: second_elements_def)
  with assms(1) have less: "i < m" by auto
  from mem have "(i, m) \<in> dup_pairs duplicates"
    by (force simp: dup_pairs_def)
  then have "same_cluster duplicates m i"
    by (auto simp: same_cluster_def)
  with assms(2) less show False by auto
qed

subsection \<open>Normalization, by method\<close>

lemma normalize_l2:
  "fst (normalize self ''l2'') = Inr ()"
  "rows (matrix (snd (normalize self ''l2''))) =
     map (\<lambda>r. map (\<lambda>x. x / (if l2_norm r = 0 then 1 else l2_norm r)) r) (rows (matrix self))"
  "ncols (matrix (snd (normalize self ''l2''))) = ncols (matrix self)"
  by (simp_all add: normalize_def Let_def alloc_def matrix_def print_def map_zip_map)

lemma normalize_l1:
  "fst (normalize self ''l1'') = Inr ()"
  "rows (matrix (snd (normalize self ''l1''))) =
     map (\<lambda>r. map (\<lambda>x. x / (if l1_norm r = 0 then 1 else l1_norm r)) r) (rows (matrix self))"
  "ncols (matrix (snd (normalize self ''l1''))) = ncols (matrix self)"
  by (simp_all add: normalize_def Let_def alloc_def matrix_def print_def map_zip_map)

lemma normalize_unknown:
  "method \<noteq> ''l2'' \<Longrightarrow> method \<noteq> ''l1'' \<Longrightarrow>
     normalize self method
       = (Inl (ValueError (''Cannot normalize with unknown method: '' @ method)), self)"
  by (simp add: normalize_def)

subsection \<open>The flag and the returned values\<close>

lemma remove_indices_same_data:
  assumes "same_data s s'"
  shows "fst (remove_indices s removing) = fst (remove_indices s' removing)"
  using assms
  by (simp add: same_data_def remove_indices_def bool_index_rows_def alloc_def Let_def
        case_prod_beta basic_stats_value matrix_def print_def split: sum.splits)

lemma same_data_print: "same_data (print m s) s' = same_data s s'"
  "same_data s (print m s') = same_data s s'"
  by (simp_all add: same_data_def print_def)

lemma find_duplicates_same_data:
  "same_data (snd (find_duplicates lib (self\<lparr>verbose := b\<rparr>) threshold neighbors))
             (snd (find_duplicates lib (self\<lparr>verbose := c\<rparr>) threshold neighbors))"
  by (cases "FAISS_AVAILABLE lib")
    (simp_all add: find_duplicates_faiss find_duplicates_sklearn Let_def matrix_def print_def
       same_data_def split: sum.splits prod.splits)

lemma find_outliers_same_data:
  "same_data (snd (find_outliers lib (self\<lparr>verbose := b\<rparr>) contamination))
             (snd (find_outliers lib (self\<lparr>verbose := c\<rparr>) contamination))"
  by (simp add: find_outliers_def Let_def matrix_def print_def same_data_def split: sum.splits)

lemma find_duplicates_verbose_value:
  "fst (find_duplicates lib (self\<lparr>verbose := b\<rparr>) threshold neighbors)
     = fst (find_duplicates lib (self\<lparr>verbose := c\<rparr>) threshold neighbors)"
  by (cases "FAISS_AVAILABLE lib")
    (simp_all add: find_duplicates_faiss find_duplicates_sklearn Let_def matrix_def
       split: sum.splits prod.splits)

lemma find_outliers_verbose_value:
  "fst (find_outliers lib (self\<lparr>verbose := b\<rparr>) contamination)
     = fst (find_outliers lib (self\<lparr>verbose := c\<rparr>) contamination)"
  by (simp add: find_outliers_def Let_def matrix_def split: sum.splits)

lemma remove_duplicates_value_general:
  "fst (remove_duplicates lib self threshold neighbors) =
     (case fst (find_duplicates lib self threshold neighbors) of
        Inl e \<Rightarrow> Inl e
      | Inr duplicates \<Rightarrow>
         (case fst (remove_indices
                (if verbose (snd (find_duplicates lib self threshold neighbors))
                 then print (Removing_near_duplicates
                         (length (remdups (map (\<lambda>(_, index, _). index) duplicates))))
                        (snd (find_duplicates lib self threshold neighbors))
                 else snd (find_duplicates lib self threshold neighbors))
                (remdups (map (\<lambda>(_, index, _). index) duplicates))) of
            Inl e \<Rightarrow> Inl e | Inr _ \<Rightarrow> Inr ()))"
proof (cases "find_duplicates lib self threshold neighbors")
  case (Pair r self1)
  then show ?thesis
    by (cases r) (simp_all add: remove_duplicates_def Let_def split: prod.splits sum.splits)
qed

lemma remove_outliers_value_general:
  "fst (remove_outliers lib self contamination) =
     (case fst (find_outliers lib self contamination) of
        Inl e \<Rightarrow> Inl e
      | Inr outliers \<Rightarrow>
         (case fst (remove_indices
                (if verbose (snd (find_outliers lib self contamination))
                 then print (Removing_outliers (length outliers))
                        (snd (find_outliers lib self contamination))
                 else snd (find_outliers lib self contamination))
                (map int outliers)) of
            Inl e \<Rightarrow> Inl e | Inr _ \<Rightarrow> Inr ()))"
proof (cases "find_outliers lib self contamination")
  case (Pair r self1)
  then show ?thesis
    by (cases r) (simp_all add: remove_outliers_def Let_def split: prod.splits sum.splits)
qed

lemma remove_indices_after_print:
  assumes "same_data s s'"
  shows "fst (remove_indices (if p then print m s else s) removing)
           = fst (remove_indices (if q then print m' s' else s') removing)"
  using assms by (intro remove_indices_same_data) (simp add: same_data_print)

lemma remove_duplicates_verbose_value:
  "fst (remove_duplicates lib (self\<lparr>verbose := b\<rparr>) threshold neighbors)
     = fst (remove_duplicates lib (self\<lparr>verbose := c\<rparr>) threshold neighbors)"
proof -
  let ?sb = "snd (find_duplicates lib (self\<lparr>verbose := b\<rparr>) threshold neighbors)"
  let ?sc = "snd (find_duplicates lib (self\<lparr>verbose := c\<rparr>) threshold neighbors)"
  have val: "fst (find_duplicates lib (self\<lparr>verbose := b\<rparr>) threshold neighbors)
     = fst (find_duplicates lib (self\<lparr>verbose := c\<rparr>) threshold neighbors)"
    by (rule find_duplicates_verbose_value)
  have inner: "fst (remove_indices (if verbose ?sb then print m ?sb else ?sb) removing)
     = fst (remove_indices (if verbose ?sc then print m ?sc else ?sc) removing)"
    for m removing
    by (rule remove_indices_after_print [OF find_duplicates_same_data])
  show ?thesis
    unfolding remove_duplicates_value_general val inner ..
qed

lemma remove_outliers_verbose_value:
  "fst (remove_outliers lib (self\<lparr>verbose := b\<rparr>) contamination)
     = fst (remove_outliers lib (self\<lparr>verbose := c\<rparr>) contamination)"
proof -
  let ?sb = "snd (find_outliers lib (self\<lparr>verbose := b\<rparr>) contamination)"
  let ?sc = "snd (find_outliers lib (self\<lparr>verbose := c\<rparr>) contamination)"
  have val: "fst (find_outliers lib (self\<lparr>verbose := b\<rparr>) contamination)
     = fst (find_outliers lib (self\<lparr>verbose := c\<rparr>) contamination)"
    by (rule find_outliers_verbose_value)
  have inner: "fst (remove_indices (if verbose ?sb then print m ?sb else ?sb) removing)
     = fst (remove_indices (if verbose ?sc then print m ?sc else ?sc) removing)"
    for m removing
    by (rule remove_indices_after_print [OF find_outliers_same_data])
  show ?thesis
    unfolding remove_outliers_value_general val inner ..
qed

lemma normalize_verbose_value:
  "fst (normalize (self\<lparr>verbose := b\<rparr>) method) = fst (normalize (self\<lparr>verbose := c\<rparr>) method)"
  by (simp add: normalize_def Let_def case_prod_beta alloc_def matrix_def split: sum.splits)

subsection \<open>The small data set, evaluated\<close>

lemma sqrt25: "sqrt 25 = 5"
  by (rule real_sqrt_unique) simp_all

lemma l2_norm_3_4: "l2_norm [3, 4] = 5"
  by (simp add: l2_norm_def sqrt25)

lemma l2_norm_0_5: "l2_norm [0, 5] = 5"
  by (simp add: l2_norm_def sqrt25)

lemma l2_norm_0_0: "l2_norm [0, 0] = 0"
  by (simp add: l2_norm_def)

lemma demo_rows: "rows (matrix demo) = [[3, 4], [3, 4], [0, 0], [0, 5]]"
  by (simp add: demo_def demo_matrix_def matrix_def)

lemma demo_aligned: "aligned demo"
  by (simp add: aligned_def demo_def demo_matrix_def matrix_def)

lemma demo_normalized:
  "rows (normalized_L2 (matrix demo)) = [[3 / 5, 4 / 5], [3 / 5, 4 / 5], [0, 0], [0, 1]]"
  by (simp add: normalized_L2_def demo_rows renorm_L2_def l2_norm_3_4 l2_norm_0_5 l2_norm_0_0)

lemma demo_contract: "search_contract demo_libs demo 2"
  by (simp add: search_contract_def demo_libs_def demo_indices_def demo_normalized
        neighbours_ok_def dot_def)

lemma demo_duplicates:
  "fst (find_duplicates demo_libs demo (99 / 100) 2) = Inr [(0, 1, 1)]"
  by (simp add: find_duplicates_faiss demo_libs_def demo_indices_def collect_duplicates_def
        row_duplicates_def enumerate_eq_zip upt_rec Let_def)

section \<open>The claims\<close>

subsection \<open>C1: row removal keeps the parallel arrays aligned\<close>

text \<open>
  Claim C1. On an aligned object, \<^verbatim>\<open>_remove_indices\<close>, \<^verbatim>\<open>remove_duplicates\<close> and
  \<^verbatim>\<open>remove_outliers\<close> each leave an aligned object, whatever the outcome of the call, and the
  matrix, the timestamps and the labels afterwards are the entries of one and the same
  increasing list of source rows: the same mask has been applied to all three, and every
  surviving row is still beside the timestamp and the label of its source row. When all
  indices given to \<^verbatim>\<open>_remove_indices\<close> are in range the call returns normally and that list
  is \<open>survivors\<close>, the rows not named by an index.
\<close>

theorem row_removal_keeps_alignment:
  assumes "aligned self"
  shows "aligned (snd (remove_indices self removing)) \<and>
         (\<exists>kept. sorted_wrt (<) kept \<and> (\<forall>k\<in>set kept. k < n_samples self) \<and>
            selects self (snd (remove_indices self removing)) kept \<and>
            n_samples (snd (remove_indices self removing)) = length kept) \<and>
         ((\<forall>i\<in>set removing. - int (n_samples self) \<le> i \<and> i < int (n_samples self)) \<longrightarrow>
            (\<exists>r. fst (remove_indices self removing) = Inr r) \<and>
            selects self (snd (remove_indices self removing))
              (survivors (n_samples self) removing)) \<and>
         aligned (snd (remove_duplicates lib self threshold neighbors)) \<and>
         (\<exists>kept. sorted_wrt (<) kept \<and> (\<forall>k\<in>set kept. k < n_samples self) \<and>
            selects self (snd (remove_duplicates lib self threshold neighbors)) kept \<and>
            n_samples (snd (remove_duplicates lib self threshold neighbors)) = length kept) \<and>
         aligned (snd (remove_outliers lib self contamination)) \<and>
         (\<exists>kept. sorted_wrt (<) kept \<and> (\<forall>k\<in>set kept. k < n_samples self) \<and>
            selects self (snd (remove_outliers lib self contamination)) kept \<and>
            n_samples (snd (remove_outliers lib self contamination)) = length kept)"
  using remove_indices_aligned [OF assms, of removing]
    remove_indices_selects_some [OF assms, of removing]
    remove_indices_selects_survivors [OF assms, of removing]
    remove_duplicates_selects_some [OF assms, of lib threshold neighbors]
    remove_outliers_selects_some [OF assms, of lib contamination]
  by blast

text \<open>
  Claim C1 on the small data set: removing rows 1 and 3 leaves rows 0 and 2 with their
  timestamps and labels.
\<close>

theorem row_removal_keeps_alignment_witness:
  "aligned demo \<and>
   fst (remove_indices demo [1, 3]) \<noteq> Inl IndexError \<and>
   rows (matrix (snd (remove_indices demo [1, 3]))) = [[3, 4], [0, 0]] \<and>
   timestamps (snd (remove_indices demo [1, 3])) = Some [10, 30] \<and>
   labels (snd (remove_indices demo [1, 3])) = Some [''a'', ''c''] \<and>
   aligned (snd (remove_indices demo [1, 3])) \<and>
   aligned (snd (remove_duplicates demo_libs demo (99 / 100) 2)) \<and>
   aligned (snd (remove_outliers demo_libs demo (1 / 100)))"
proof -
  note all = row_removal_keeps_alignment [OF demo_aligned, of "[1, 3]" demo_libs "99 / 100" 2
      "1 / 100"]
  have range: "\<forall>i\<in>set [1, 3 :: int]. - int (n_samples demo) \<le> i \<and> i < int (n_samples demo)"
    by (simp add: demo_def)
  have kept: "survivors (n_samples demo) [1, 3] = [0, 2]"
    by (simp add: survivors_def demo_def upt_rec)
  from all range
  have "selects demo (snd (remove_indices demo [1, 3])) (survivors (n_samples demo) [1, 3])"
    and "\<exists>r. fst (remove_indices demo [1, 3]) = Inr r"
    by blast+
  then have "rows (matrix (snd (remove_indices demo [1, 3]))) = [[3, 4], [0, 0]]"
    "timestamps (snd (remove_indices demo [1, 3])) = Some [10, 30]"
    "labels (snd (remove_indices demo [1, 3])) = Some [''a'', ''c'']"
    "fst (remove_indices demo [1, 3]) \<noteq> Inl IndexError"
    by (auto simp: selects_def kept demo_rows) (simp_all add: demo_def)
  with all demo_aligned show ?thesis by blast
qed

subsection \<open>C2: what find_duplicates reports\<close>

text \<open>
  Claim C2. Every triple \<open>(i, j, similarity)\<close> returned by \<^verbatim>\<open>find_duplicates\<close> has \<open>i < j\<close>
  and \<open>similarity \<ge> threshold\<close>, for every threshold and neighbour count and whatever the
  search library returned. When the library call returned what it documents, \<open>i\<close> and \<open>j\<close>
  are rows of the matrix and \<open>similarity\<close> is the cosine similarity of the two rows.
\<close>

theorem find_duplicates_sound:
  assumes "fst (find_duplicates lib self threshold neighbors) = Inr duplicates"
    and "(i, j, similarity) \<in> set duplicates"
  shows "int i < j \<and> threshold \<le> similarity \<and>
         (search_contract lib self neighbors \<longrightarrow>
            i < length (rows (matrix self)) \<and> j < int (length (rows (matrix self))) \<and>
            similarity = cosine_similarity (rows (matrix self) ! i) (rows (matrix self) ! nat j))"
  using assms by (rule find_duplicates_elem)

text \<open>
  Claim C2 on the small data set, with threshold 0.99 and two neighbours: the one triple
  reported pairs the equal rows 0 and 1.
\<close>

theorem find_duplicates_sound_witness:
  "fst (find_duplicates demo_libs demo (99 / 100) 2) = Inr [(0, 1, 1)] \<and>
   search_contract demo_libs demo 2 \<and>
   cosine_similarity (rows (matrix demo) ! 0) (rows (matrix demo) ! 1) = 1"
proof -
  have "(0, 1, 1) \<in> set [(0 :: nat, 1 :: int, 1 :: real)]" by simp
  from find_duplicates_sound [OF demo_duplicates this] demo_contract demo_duplicates
  show ?thesis by simp
qed

subsection \<open>C3: remove_duplicates keeps the earliest row\<close>

text \<open>
  Claim C3. On an aligned object, when the search returned what the library documents and
  \<^verbatim>\<open>find_duplicates\<close> reported \<open>duplicates\<close>, \<^verbatim>\<open>remove_duplicates\<close> returns normally and
  keeps exactly the rows that are not the second component of a reported triple. A row that
  is the second component of several triples is counted once: the row count drops by the
  number of distinct second components. A row with the least index of its duplicate cluster
  is kept.
\<close>

theorem remove_duplicates_keeps_earliest:
  assumes al: "aligned self"
    and ok: "search_contract lib self neighbors"
    and fd: "fst (find_duplicates lib self threshold neighbors) = Inr duplicates"
  shows "fst (remove_duplicates lib self threshold neighbors) = Inr () \<and>
         selects self (snd (remove_duplicates lib self threshold neighbors))
           (filter (\<lambda>k. int k \<notin> second_elements duplicates) [0..<n_samples self]) \<and>
         n_samples (snd (remove_duplicates lib self threshold neighbors))
           + card (second_elements duplicates) = n_samples self \<and>
         (m < n_samples self \<and> (\<forall>a. same_cluster duplicates m a \<longrightarrow> m \<le> a) \<longrightarrow>
            m \<in> set (filter (\<lambda>k. int k \<notin> second_elements duplicates) [0..<n_samples self]))"
proof -
  define self1 where "self1 = snd (find_duplicates lib self threshold neighbors)"
  define removing where "removing = remdups (map (\<lambda>(_, index, _). index) duplicates)"
  define self2 where "self2 = (if verbose self1
      then print (Removing_near_duplicates (length removing)) self1 else self1)"
  let ?kept = "filter (\<lambda>k. int k \<notin> second_elements duplicates) [0..<n_samples self]"
  from al have valid: "embeddings self < length (heap self)"
    and n: "length (rows (matrix self)) = n_samples self"
    by (simp_all add: aligned_def)
  note frame = find_duplicates_frame [OF valid, of lib threshold neighbors, folded self1_def]
  have al2: "aligned self2"
    using find_duplicates_aligned [OF al, of lib threshold neighbors]
    by (simp add: self2_def self1_def aligned_print)
  have same: "matrix self2 = matrix self" "timestamps self2 = timestamps self"
    "labels self2 = labels self" "n_samples self2 = n_samples self"
    using frame by (simp_all add: self2_def print_def matrix_def)
  have set_removing: "set removing = second_elements duplicates"
    by (auto simp: removing_def second_elements_def)
  have less: "\<forall>(i, j, s)\<in>set duplicates. int i < j"
    using find_duplicates_elem [OF fd] by auto
  have range: "\<forall>j\<in>second_elements duplicates. 0 \<le> j \<and> j < int (n_samples self)"
    using find_duplicates_elem [OF fd] ok n by (fastforce simp: second_elements_def)
  then have range': "\<forall>i\<in>set removing. - int (n_samples self2) \<le> i \<and> i < int (n_samples self2)"
    by (auto simp: set_removing same)
  have kept: "survivors (n_samples self2) removing = ?kept"
    unfolding survivors_def same set_removing using range by (intro filter_cong) auto
  have state: "snd (remove_duplicates lib self threshold neighbors) = snd (remove_indices self2 removing)"
    by (simp add: remove_duplicates_state fd Let_def self2_def self1_def removing_def)
  have val: "fst (remove_duplicates lib self threshold neighbors) =
      (case fst (remove_indices self2 removing) of Inl e \<Rightarrow> Inl e | Inr _ \<Rightarrow> Inr ())"
    by (simp add: remove_duplicates_value [OF fd] Let_def self2_def self1_def removing_def)
  note ri = remove_indices_selects_survivors [OF al2 range', unfolded kept]
  from ri val have 1: "fst (remove_duplicates lib self threshold neighbors) = Inr ()"
    by auto
  from ri have 2: "selects self (snd (remove_duplicates lib self threshold neighbors)) ?kept"
    by (auto simp: state intro: selects_transfer [OF same(1-3)])
  have "aligned (snd (remove_indices self2 removing))"
    by (rule remove_indices_aligned [OF al2])
  with ri have "n_samples (snd (remove_duplicates lib self threshold neighbors)) = length ?kept"
    by (simp add: state aligned_def)
  with count_kept [OF range]
  have 3: "n_samples (snd (remove_duplicates lib self threshold neighbors))
           + card (second_elements duplicates) = n_samples self"
    by simp
  have 4: "m \<in> set ?kept"
    if "m < n_samples self" "\<forall>a. same_cluster duplicates m a \<longrightarrow> m \<le> a"
    using cluster_minimum_not_second [OF less that(2)] that(1) by simp
  from 1 2 3 4 show ?thesis by blast
qed

text \<open>
  Claim C3 on the small data set: row 1, the later of the two equal rows, is removed with its
  timestamp and label.
\<close>

theorem remove_duplicates_keeps_earliest_witness:
  "aligned demo \<and> search_contract demo_libs demo 2 \<and>
   fst (find_duplicates demo_libs demo (99 / 100) 2) = Inr [(0, 1, 1)] \<and>
   fst (remove_duplicates demo_libs demo (99 / 100) 2) = Inr () \<and>
   rows (matrix (snd (remove_duplicates demo_libs demo (99 / 100) 2)))
     = [[3, 4], [0, 0], [0, 5]] \<and>
   timestamps (snd (remove_duplicates demo_libs demo (99 / 100) 2)) = Some [10, 30, 40] \<and>
   labels (snd (remove_duplicates demo_libs demo (99 / 100) 2)) = Some [''a'', ''c'', ''d''] \<and>
   n_samples (snd (remove_duplicates demo_libs demo (99 / 100) 2)) = 3"
proof -
  note all = remove_duplicates_keeps_earliest [OF demo_aligned demo_contract demo_duplicates,
      of 0]
  have second: "second_elements [(0, 1, 1)] = {1}"
    by (simp add: second_elements_def)
  have kept: "filter (\<lambda>k. int k \<notin> second_elements [(0, 1, 1)]) [0..<n_samples demo]
      = [0, 2, 3]"
    by (simp add: second demo_def upt_rec)
  have one: "card (second_elements [(0, 1, 1)]) = 1"
    by (simp add: second)
  from all have "selects demo (snd (remove_duplicates demo_libs demo (99 / 100) 2)) [0, 2, 3]"
    and "n_samples (snd (remove_duplicates demo_libs demo (99 / 100) 2)) + 1 = n_samples demo"
    and "fst (remove_duplicates demo_libs demo (99 / 100) 2) = Inr ()"
    unfolding kept one by blast+
  then have "rows (matrix (snd (remove_duplicates demo_libs demo (99 / 100) 2)))
      = [[3, 4], [0, 0], [0, 5]]"
    "timestamps (snd (remove_duplicates demo_libs demo (99 / 100) 2)) = Some [10, 30, 40]"
    "labels (snd (remove_duplicates demo_libs demo (99 / 100) 2)) = Some [''a'', ''c'', ''d'']"
    "n_samples (snd (remove_duplicates demo_libs demo (99 / 100) 2)) = 3"
    "fst (remove_duplicates demo_libs demo (99 / 100) 2) = Inr ()"
    by (auto simp: selects_def demo_rows) (simp_all add: demo_def)
  with demo_aligned demo_contract demo_duplicates show ?thesis by blast
qed

subsection \<open>C4: removing nothing\<close>

text \<open>
  Claim C4 says that \<^verbatim>\<open>_remove_indices\<close> on an empty collection changes nothing and still
  returns the current statistics. The first half holds: the object is as before but for the
  line printed in verbose mode. The returned value, however, is None, which is not the value
  of \<^verbatim>\<open>basic_stats\<close>; the other exit of the method does return it.
\<close>

theorem remove_indices_empty_returns_None:
  "fst (remove_indices self []) = Inr None \<and>
   fst (remove_indices self []) \<noteq> Inr (Some (fst (basic_stats self))) \<and>
   snd (remove_indices self []) =
     self\<lparr>stdout := stdout self @ (if verbose self then [Zero_embeddings_removed] else [])\<rparr>"
  by (simp add: remove_indices_def print_def)

subsection \<open>C5: indices out of range\<close>

text \<open>
  Claim C5 says that every index outside \<open>[0, N)\<close> makes \<^verbatim>\<open>_remove_indices\<close> fail with
  IndexError. The index -1 is outside that interval, yet the call on the small data set
  returns normally and drops the last row.
\<close>

theorem remove_indices_negative_index_counterexample:
  "- 1 \<notin> {0..<int (length (rows (matrix demo)))} \<and>
   fst (remove_indices demo [- 1]) \<noteq> Inl IndexError \<and>
   rows (matrix (snd (remove_indices demo [- 1]))) \<noteq> rows (matrix demo)"
  by (simp add: remove_indices_def demo_def demo_matrix_def fancy_assign_def signed_index_def
        wrapped_index_def unwrap_def normalize_index_def
        bool_index_rows_def bool_index_def matrix_def alloc_def basic_stats_def Let_def shape_def
        print_def eval_nat_numeral)

text \<open>
  Claim C5, amended: an index that lies neither in \<open>[-N, N)\<close> nor in \<open>[2^64 - N, 2^64)\<close>
  makes \<^verbatim>\<open>_remove_indices\<close> fail with IndexError, and the object after the failure is the
  object before the call. The second interval holds the values that numpy, storing indices
  in 64 bits, reads as the negative indices \<open>i - 2^64\<close>.
\<close>

theorem remove_indices_out_of_range:
  assumes "n_samples self = length (rows (matrix self))"
    and "i \<in> set removing"
    and "i < - int (length (rows (matrix self))) \<or> int (length (rows (matrix self))) \<le> i"
    and "i < 2 ^ 64 - int (length (rows (matrix self))) \<or> 2 ^ 64 \<le> i"
  shows "remove_indices self removing = (Inl IndexError, self)"
proof -
  from assms(2) have ne: "length removing \<noteq> 0" by auto
  have "fancy_assign (replicate (n_samples self) True) removing False = Inl IndexError"
    using assms by (intro fancy_assign_out_of_range [of i]) simp_all
  with ne show ?thesis by (simp add: remove_indices_def)
qed

text \<open>
  Claim C5, amended, on the small data set: the index 4 beside the valid index 1, and the
  index \<open>2^64\<close>, which no 64-bit integer holds.
\<close>

theorem remove_indices_out_of_range_witness:
  "n_samples demo = length (rows (matrix demo)) \<and> 4 \<in> set [1, 4 :: int] \<and>
   int (length (rows (matrix demo))) \<le> 4 \<and> 4 < 2 ^ 64 - int (length (rows (matrix demo))) \<and>
   remove_indices demo [1, 4] = (Inl IndexError, demo) \<and>
   remove_indices demo [2 ^ 64] = (Inl IndexError, demo)"
proof -
  have a: "n_samples demo = length (rows (matrix demo))"
    by (simp add: demo_def demo_matrix_def matrix_def)
  have b: "4 \<in> set [1, 4 :: int]" "2 ^ 64 \<in> set [2 ^ 64 :: int]" by simp_all
  have c: "4 < - int (length (rows (matrix demo))) \<or> int (length (rows (matrix demo))) \<le> 4"
    "2 ^ 64 < - int (length (rows (matrix demo))) \<or> int (length (rows (matrix demo))) \<le> 2 ^ 64"
    by (simp_all add: demo_def demo_matrix_def matrix_def)
  have d: "4 < 2 ^ 64 - int (length (rows (matrix demo))) \<or> (2 ^ 64 :: int) \<le> 4"
    "2 ^ 64 < 2 ^ 64 - int (length (rows (matrix demo))) \<or> (2 ^ 64 :: int) \<le> 2 ^ 64"
    by (simp_all add: demo_def demo_matrix_def matrix_def)
  from remove_indices_out_of_range [OF a b(1) c(1) d(1)]
    remove_indices_out_of_range [OF a b(2) c(2) d(2)] a b c d
  show ?thesis by (simp add: demo_def demo_matrix_def matrix_def)
qed

subsection \<open>C6: lengths of the parallel arrays\<close>

text \<open>
  Claim C6 says that the constructor and the two setters fail with ShapeError when a parallel
  array is not as long as the matrix has rows. With a matrix of four rows and arrays of one
  entry, none of the three fails.
\<close>

theorem init_mismatch_counterexample:
  "length [10 :: nat] \<noteq> fst (shape ([demo_matrix] ! 0)) \<and>
   init [demo_matrix] [] 0 True (Some [10 :: nat]) (Some [''a'']) \<noteq> Inl ShapeError \<and>
   fst (set_labels demo (Some [''a''])) \<noteq> Inl ShapeError \<and>
   fst (set_timestamps demo (Some [10])) \<noteq> Inl ShapeError"
  by (simp add: init_def shape_def demo_matrix_def set_labels_def set_timestamps_def)

text \<open>
  Claim C6, amended: the constructor and the two setters do not look at the length of a
  parallel array; they return normally and store the array they are given.
\<close>

theorem no_length_validation:
  "init h out e vb ts ls =
     Inr \<lparr>embeddings = e, n_samples = length (rows (h ! e)), n_dim = ncols (h ! e),
          verbose = vb, timestamps = ts, labels = ls, heap = h, stdout = out\<rparr> \<and>
   set_labels self ls = (Inr (), self\<lparr>labels := ls\<rparr>) \<and>
   set_timestamps self ts = (Inr (), self\<lparr>timestamps := ts\<rparr>)"
  by (simp add: init_def shape_def set_labels_def set_timestamps_def)

subsection \<open>C7: unknown file formats\<close>

text \<open>
  Claim C7 says that loading from a path that ends in neither \<^verbatim>\<open>.npy\<close> nor \<^verbatim>\<open>.csv\<close> fails
  with FormatError. The exception raised is a ValueError.
\<close>

theorem load_embeddings_unknown_counterexample:
  "\<not> endswith ''vectors.txt'' ''.npy'' \<and> \<not> endswith ''vectors.txt'' ''.csv'' \<and>
   load_embeddings demo_libs ''vectors.txt'' \<noteq> Inl FormatError"
  by (simp add: load_embeddings_def endswith_def)

text \<open>
  Claim C7, amended: loading from a path that ends in neither \<^verbatim>\<open>.npy\<close> nor \<^verbatim>\<open>.csv\<close> fails
  with the ValueError of the last branch.
\<close>

theorem load_embeddings_unknown:
  assumes "\<not> endswith path ''.npy''" and "\<not> endswith path ''.csv''"
  shows "load_embeddings lib path = Inl (ValueError ''Unknown file format: must be .npy or .csv'')"
  using assms by (simp add: load_embeddings_def)

text \<open>Claim C7, amended, at the path \<^verbatim>\<open>vectors.txt\<close>.\<close>

theorem load_embeddings_unknown_witness:
  "\<not> endswith ''vectors.txt'' ''.npy'' \<and> \<not> endswith ''vectors.txt'' ''.csv'' \<and>
   load_embeddings demo_libs ''vectors.txt''
     = Inl (ValueError ''Unknown file format: must be .npy or .csv'')"
proof -
  have a: "\<not> endswith ''vectors.txt'' ''.npy''" by (simp add: endswith_def)
  have b: "\<not> endswith ''vectors.txt'' ''.csv''" by (simp add: endswith_def)
  from load_embeddings_unknown [OF a b, of demo_libs] a b show ?thesis by simp
qed

subsection \<open>C8: normalization\<close>

text \<open>
  Claim C8, over the real numbers. \<^verbatim>\<open>normalize\<close> with method l2 returns normally and
  replaces row \<open>i\<close> by the row divided by its L2 norm, so that a row with a nonzero entry
  ends with L2 norm 1; with method l1 the divisor is the L1 norm. A row of zeros is left as
  it is under both methods. Any other method raises ValueError and leaves the object as it
  was.
\<close>

theorem normalize_rows:
  "(i < length (rows (matrix self)) \<longrightarrow>
      fst (normalize self ''l2'') = Inr () \<and>
      length (rows (matrix (snd (normalize self ''l2'')))) = length (rows (matrix self)) \<and>
      rows (matrix (snd (normalize self ''l2''))) ! i =
        (if \<forall>x\<in>set (rows (matrix self) ! i). x = 0 then rows (matrix self) ! i
         else map (\<lambda>x. x / l2_norm (rows (matrix self) ! i)) (rows (matrix self) ! i)) \<and>
      ((\<exists>x\<in>set (rows (matrix self) ! i). x \<noteq> 0) \<longrightarrow>
         l2_norm (rows (matrix (snd (normalize self ''l2''))) ! i) = 1) \<and>
      fst (normalize self ''l1'') = Inr () \<and>
      length (rows (matrix (snd (normalize self ''l1'')))) = length (rows (matrix self)) \<and>
      rows (matrix (snd (normalize self ''l1''))) ! i =
        (if \<forall>x\<in>set (rows (matrix self) ! i). x = 0 then rows (matrix self) ! i
         else map (\<lambda>x. x / l1_norm (rows (matrix self) ! i)) (rows (matrix self) ! i))) \<and>
   (method \<noteq> ''l2'' \<and> method \<noteq> ''l1'' \<longrightarrow>
      normalize self method
        = (Inl (ValueError (''Cannot normalize with unknown method: '' @ method)), self))"
proof -
  have unit: "l2_norm (map (\<lambda>x. x / l2_norm r) r) = 1" if "\<exists>x\<in>set r. x \<noteq> 0" for r
    using that l2_norm_zero_iff [of r] by (intro l2_norm_unit) blast
  show ?thesis
    using l2_norm_zero_iff l1_norm_zero_iff
    by (auto simp: normalize_l2 normalize_l1 normalize_unknown map_div_one unit)
qed

text \<open>
  Claim C8 on the small data set: the row \<open>(3, 4)\<close> becomes \<open>(3/5, 4/5)\<close> under l2 and
  \<open>(3/7, 4/7)\<close> under l1, the zero row stays, and the method \<^verbatim>\<open>bogus\<close> is refused.
\<close>

theorem normalize_rows_witness:
  "0 < length (rows (matrix demo)) \<and> 3 \<in> set (rows (matrix demo) ! 0) \<and>
   fst (normalize demo ''l2'') = Inr () \<and>
   rows (matrix (snd (normalize demo ''l2''))) ! 0 = [3 / 5, 4 / 5] \<and>
   l2_norm (rows (matrix (snd (normalize demo ''l2''))) ! 0) = 1 \<and>
   rows (matrix (snd (normalize demo ''l2''))) ! 2 = [0, 0] \<and>
   rows (matrix (snd (normalize demo ''l1''))) ! 0 = [3 / 7, 4 / 7] \<and>
   rows (matrix (snd (normalize demo ''l1''))) ! 2 = [0, 0] \<and>
   normalize demo ''bogus''
     = (Inl (ValueError ''Cannot normalize with unknown method: bogus''), demo)"
proof -
  have row0: "0 < length (rows (matrix demo))" "\<exists>x\<in>set (rows (matrix demo) ! 0). x \<noteq> 0"
    and row2: "2 < length (rows (matrix demo))"
    and other: "''bogus'' \<noteq> ''l2'' \<and> ''bogus'' \<noteq> ''l1''"
    by (simp_all add: demo_rows)
  from normalize_rows [of 0 demo "''bogus''"] row0 other
  have unit: "l2_norm (rows (matrix (snd (normalize demo ''l2''))) ! 0) = 1"
    and bogus: "normalize demo ''bogus''
      = (Inl (ValueError (''Cannot normalize with unknown method: '' @ ''bogus'')), demo)"
    by blast+
  from normalize_rows [of 0 demo "''bogus''"] normalize_rows [of 2 demo "''bogus''"]
  have "fst (normalize demo ''l2'') = Inr ()"
    "rows (matrix (snd (normalize demo ''l2''))) ! 0 = [3 / 5, 4 / 5]"
    "rows (matrix (snd (normalize demo ''l2''))) ! 2 = [0, 0]"
    "rows (matrix (snd (normalize demo ''l1''))) ! 0 = [3 / 7, 4 / 7]"
    "rows (matrix (snd (normalize demo ''l1''))) ! 2 = [0, 0]"
    by (simp_all add: demo_rows l2_norm_3_4 l1_norm_def)
  with unit bogus show ?thesis by (simp add: demo_rows)
qed

subsection \<open>C9: the verbose flag\<close>

text \<open>
  Claim C9. Started from the same object with the flag set and with the flag cleared, each of
  \<^verbatim>\<open>basic_stats\<close>, \<^verbatim>\<open>get_dims\<close>, \<^verbatim>\<open>find_duplicates\<close>, \<^verbatim>\<open>find_outliers\<close>,
  \<^verbatim>\<open>_remove_indices\<close>, \<^verbatim>\<open>remove_duplicates\<close>, \<^verbatim>\<open>remove_outliers\<close> and \<^verbatim>\<open>normalize\<close>
  returns the same value or raises the same exception.
\<close>

theorem verbose_only_prints:
  "fst (basic_stats (self\<lparr>verbose := True\<rparr>)) = fst (basic_stats (self\<lparr>verbose := False\<rparr>)) \<and>
   fst (get_dims (self\<lparr>verbose := True\<rparr>)) = fst (get_dims (self\<lparr>verbose := False\<rparr>)) \<and>
   fst (find_duplicates lib (self\<lparr>verbose := True\<rparr>) threshold neighbors)
     = fst (find_duplicates lib (self\<lparr>verbose := False\<rparr>) threshold neighbors) \<and>
   fst (find_outliers lib (self\<lparr>verbose := True\<rparr>) contamination)
     = fst (find_outliers lib (self\<lparr>verbose := False\<rparr>) contamination) \<and>
   fst (remove_indices (self\<lparr>verbose := True\<rparr>) removing)
     = fst (remove_indices (self\<lparr>verbose := False\<rparr>) removing) \<and>
   fst (remove_duplicates lib (self\<lparr>verbose := True\<rparr>) threshold neighbors)
     = fst (remove_duplicates lib (self\<lparr>verbose := False\<rparr>) threshold neighbors) \<and>
   fst (remove_outliers lib (self\<lparr>verbose := True\<rparr>) contamination)
     = fst (remove_outliers lib (self\<lparr>verbose := False\<rparr>) contamination) \<and>
   fst (normalize (self\<lparr>verbose := True\<rparr>) method)
     = fst (normalize (self\<lparr>verbose := False\<rparr>) method)"
proof -
  have "fst (basic_stats (self\<lparr>verbose := True\<rparr>)) = fst (basic_stats (self\<lparr>verbose := False\<rparr>))"
    by (simp add: basic_stats_value matrix_def)
  moreover
  have "fst (get_dims (self\<lparr>verbose := True\<rparr>)) = fst (get_dims (self\<lparr>verbose := False\<rparr>))"
    by (simp add: get_dims_def matrix_def Let_def)
  moreover
  have "fst (remove_indices (self\<lparr>verbose := True\<rparr>) removing)
     = fst (remove_indices (self\<lparr>verbose := False\<rparr>) removing)"
    by (rule remove_indices_same_data) (simp add: same_data_def)
  ultimately show ?thesis
    using find_duplicates_verbose_value [where b = True and c = False]
      find_outliers_verbose_value [where b = True and c = False]
      remove_duplicates_verbose_value [where b = True and c = False]
      remove_outliers_verbose_value [where b = True and c = False]
      normalize_verbose_value [where b = True and c = False]
    by blast
qed

text \<open>
  Claim C9 on the small data set: the statistics are the same with and without the flag,
  while the printed lines differ.
\<close>

theorem verbose_only_prints_witness:
  "fst (basic_stats (demo\<lparr>verbose := True\<rparr>)) = fst (basic_stats (demo\<lparr>verbose := False\<rparr>)) \<and>
   stdout (snd (basic_stats (demo\<lparr>verbose := True\<rparr>)))
     \<noteq> stdout (snd (basic_stats (demo\<lparr>verbose := False\<rparr>))) \<and>
   fst (remove_indices (demo\<lparr>verbose := True\<rparr>) [1])
     = fst (remove_indices (demo\<lparr>verbose := False\<rparr>) [1])"
proof -
  have "stdout (snd (basic_stats (demo\<lparr>verbose := True\<rparr>)))
     \<noteq> stdout (snd (basic_stats (demo\<lparr>verbose := False\<rparr>)))"
    by (simp add: basic_stats_state)
  with verbose_only_prints [where self = demo and removing = "[1]"]
  show ?thesis by simp
qed

subsection \<open>C10: the two finders are observers\<close>

text \<open>
  Claim C10. When the matrix reference points into the heap, \<^verbatim>\<open>find_duplicates\<close> and
  \<^verbatim>\<open>find_outliers\<close> leave the matrix, the timestamps, the labels, the row count and the
  dimension as they were. \<^verbatim>\<open>find_duplicates\<close> changes no array that existed before the call:
  the array normalized in place is one allocated during the call.
\<close>

theorem finders_are_observers:
  assumes "embeddings self < length (heap self)"
  shows "matrix (snd (find_duplicates lib self threshold neighbors)) = matrix self \<and>
         timestamps (snd (find_duplicates lib self threshold neighbors)) = timestamps self \<and>
         labels (snd (find_duplicates lib self threshold neighbors)) = labels self \<and>
         n_samples (snd (find_duplicates lib self threshold neighbors)) = n_samples self \<and>
         n_dim (snd (find_duplicates lib self threshold neighbors)) = n_dim self \<and>
         embeddings (snd (find_duplicates lib self threshold neighbors)) = embeddings self \<and>
         take (length (heap self)) (heap (snd (find_duplicates lib self threshold neighbors)))
           = heap self \<and>
         matrix (snd (find_outliers lib self contamination)) = matrix self \<and>
         timestamps (snd (find_outliers lib self contamination)) = timestamps self \<and>
         labels (snd (find_outliers lib self contamination)) = labels self \<and>
         n_samples (snd (find_outliers lib self contamination)) = n_samples self \<and>
         n_dim (snd (find_outliers lib self contamination)) = n_dim self \<and>
         embeddings (snd (find_outliers lib self contamination)) = embeddings self \<and>
         heap (snd (find_outliers lib self contamination)) = heap self"
proof -
  have "matrix (snd (find_outliers lib self contamination)) = matrix self"
    "timestamps (snd (find_outliers lib self contamination)) = timestamps self"
    "labels (snd (find_outliers lib self contamination)) = labels self"
    "n_samples (snd (find_outliers lib self contamination)) = n_samples self"
    "n_dim (snd (find_outliers lib self contamination)) = n_dim self"
    "embeddings (snd (find_outliers lib self contamination)) = embeddings self"
    "heap (snd (find_outliers lib self contamination)) = heap self"
    by (subst find_outliers_frame, simp add: matrix_def)+
  with find_duplicates_frame [OF assms] show ?thesis by simp
qed

text \<open>
  Claim C10 on the small data set: the heap has grown by the copies, the matrix is the one
  from before.
\<close>

theorem finders_are_observers_witness:
  "embeddings demo < length (heap demo) \<and>
   matrix (snd (find_duplicates demo_libs demo (99 / 100) 2)) = demo_matrix \<and>
   timestamps (snd (find_duplicates demo_libs demo (99 / 100) 2)) = Some [10, 20, 30, 40] \<and>
   heap (snd (find_duplicates demo_libs demo (99 / 100) 2)) \<noteq> heap demo \<and>
   matrix (snd (find_outliers demo_libs demo (1 / 100))) = demo_matrix \<and>
   heap (snd (find_outliers demo_libs demo (1 / 100))) = [demo_matrix]"
proof -
  have valid: "embeddings demo < length (heap demo)" by (simp add: demo_def)
  have grown: "heap (snd (find_duplicates demo_libs demo (99 / 100) 2)) \<noteq> heap demo"
    by (simp add: find_duplicates_faiss demo_libs_def Let_def print_def)
  have same: "matrix demo = demo_matrix" "timestamps demo = Some [10, 20, 30, 40]"
    "heap demo = [demo_matrix]"
    by (simp_all add: demo_def matrix_def)
  from finders_are_observers [OF valid, of demo_libs "99 / 100" 2 "1 / 100"] valid grown
  show ?thesis unfolding same by blast
qed

end
